theory Spec2Isabelle
  imports Main "HOL-Library.Word"
begin

section \<open>Octets, strings and exceptions\<close>

type_synonym uint8_t = "8 word"
type_synonym uint16_t = "16 word"

text \<open>
  Every \<^verbatim>\<open>throw\<close> of \<^verbatim>\<open>binding.cc\<close> raises \<^verbatim>\<open>std::runtime_error\<close> with a message;
  \<^verbatim>\<open>std::string::resize\<close> raises \<^verbatim>\<open>std::length_error\<close> when asked for \<^verbatim>\<open>npos\<close> characters.
\<close>

datatype error = runtime_error string | length_error

text \<open>The conversion of one octet to a \<^verbatim>\<open>char\<close> of a \<^verbatim>\<open>std::string\<close>.\<close>

definition to_char :: "uint8_t \<Rightarrow> char" where
  "to_char b = char_of (unat b)"

definition dquote :: char where
  "dquote = CHR 0x22"

definition NUL :: char where
  "NUL = CHR 0x00"

subsection \<open>Number formatting\<close>

definition digit_char :: "nat \<Rightarrow> char" where
  "digit_char d = ''0123456789abcdef'' ! d"

text \<open>\<^verbatim>\<open>std::to_string\<close> and \<^verbatim>\<open>%d\<close> on a value that is not negative: decimal, no padding.\<close>

fun to_string :: "nat \<Rightarrow> string" where
  "to_string n =
     (if n < 10 then [digit_char n] else to_string (n div 10) @ [digit_char (n mod 10)])"

declare to_string.simps [simp del]

text \<open>\<^verbatim>\<open>%x\<close>: lower-case hexadecimal, no padding.\<close>

fun to_hex :: "nat \<Rightarrow> string" where
  "to_hex n =
     (if n < 16 then [digit_char n] else to_hex (n div 16) @ [digit_char (n mod 16)])"

declare to_hex.simps [simp del]

text \<open>The conversions of the two \<^verbatim>\<open>snprintf\<close> formats; a \<^verbatim>\<open>uint8_t\<close> argument is promoted to \<^verbatim>\<open>int\<close>.\<close>

definition printf_d :: "uint8_t \<Rightarrow> string" where
  "printf_d b = to_string (unat b)"

definition printf_02x :: "uint8_t \<Rightarrow> string" where
  "printf_02x b = (let s = to_hex (unat b) in replicate (2 - length s) CHR ''0'' @ s)"

text \<open>\<^verbatim>\<open>snprintf(buf, size, ...)\<close> stores at most \<^verbatim>\<open>size - 1\<close> characters of the formatted text.\<close>

definition snprintf :: "nat \<Rightarrow> string \<Rightarrow> string" where
  "snprintf sz s = take (sz - 1) s"

subsection \<open>Reading text back\<close>

text \<open>These functions are not part of the program: they state what a printed address denotes.\<close>

definition digit_val :: "char \<Rightarrow> nat option" where
  "digit_val c = (if c \<in> set ''0123456789'' then Some (of_char c - 48)
                  else if c \<in> set ''abcdef'' then Some (of_char c - 87) else None)"

definition is_decimal :: "string \<Rightarrow> bool" where
  "is_decimal s = (s \<noteq> [] \<and> list_all (\<lambda>c. c \<in> set ''0123456789'') s)"

definition is_hex :: "string \<Rightarrow> bool" where
  "is_hex s = (s \<noteq> [] \<and> list_all (\<lambda>c. c \<in> set ''0123456789abcdef'') s)"

definition value_of :: "nat \<Rightarrow> string \<Rightarrow> nat" where
  "value_of base s = foldl (\<lambda>acc c. base * acc + the (digit_val c)) 0 s"

text \<open>One group of an IPv6 address as \<open>asAAAA\<close> prints it: two octets, two digits each.\<close>

definition hex_group :: "uint8_t \<Rightarrow> uint8_t \<Rightarrow> string" where
  "hex_group a b = printf_02x a @ printf_02x b"

fun split_on :: "char \<Rightarrow> string \<Rightarrow> string list" where
  "split_on sep [] = [[]]"
| "split_on sep (c # cs) =
     (if c = sep then [] # split_on sep cs
      else (case split_on sep cs of g # gs \<Rightarrow> (c # g) # gs | [] \<Rightarrow> [[c]]))"

section \<open>The data model\<close>

subsection \<open>QueryClass and QueryType\<close>

text \<open>
  The two enumerations take their values from \<^verbatim>\<open>arpa/nameser.h\<close>. \<^verbatim>\<open>Lookup\<close> casts any number
  the caller passes to them, so a query type is modelled by its underlying value.
\<close>

type_synonym QueryClass = int
type_synonym QueryType = int

definition QueryClass_IN :: QueryClass where "QueryClass_IN = 1"
definition QueryType_A :: QueryType where "QueryType_A = 1"
definition QueryType_AAAA :: QueryType where "QueryType_AAAA = 28"
definition QueryType_SRV :: QueryType where "QueryType_SRV = 33"
definition QueryType_TXT :: QueryType where "QueryType_TXT = 16"
definition QueryType_CNAME :: QueryType where "QueryType_CNAME = 5"

subsection \<open>The structures of the resolver library\<close>

text \<open>
  Pointers into the message are offsets from its first octet (\<^verbatim>\<open>ns_msg_base\<close>); the octets
  between \<^verbatim>\<open>ns_msg_base\<close> and \<^verbatim>\<open>ns_msg_end\<close> are a list.
\<close>

record ns_rr =
  rr_name :: string
  rr_type :: uint16_t
  rr_class :: uint16_t
  rr_ttl :: "32 word"
  rdlength :: uint16_t
  rdata :: int

record ns_msg =
  msg_octets :: "uint8_t list"
  msg_id :: uint16_t
  msg_flags :: uint16_t
  msg_counts :: "nat list"
  msg_sections :: "nat list"
  msg_sect :: nat
  msg_rrnum :: int
  msg_ptr :: nat

definition ns_s_qd :: nat where "ns_s_qd = 0"
definition ns_s_an :: nat where "ns_s_an = 1"
definition ns_s_max :: nat where "ns_s_max = 4"

definition ns_msg_count :: "ns_msg \<Rightarrow> nat \<Rightarrow> nat" where
  "ns_msg_count handle section = msg_counts handle ! section"

definition ns_rr_rdata :: "ns_rr \<Rightarrow> int" where
  "ns_rr_rdata rr = rdata rr"

definition ns_rr_rdlen :: "ns_rr \<Rightarrow> nat" where
  "ns_rr_rdlen rr = unat (rdlength rr)"

text \<open>
  The functions of the resolver library and of the C library that \<^verbatim>\<open>binding.cc\<close> calls are
  parameters of the model. Each returns what the C function returns together with what it
  stores through its pointer arguments:
  \<^item> \<open>ns_initparse octets\<close>: the return value and the handle;
  \<^item> \<open>ns_parserr handle section rrnum\<close>: the return value, the handle, the record and \<^verbatim>\<open>errno\<close>;
  \<^item> \<open>dn_expand octets src dstsiz\<close>: the return value and the characters stored at \<^verbatim>\<open>dst\<close>;
  \<^item> \<open>res_ninit\<close>: the return value and \<^verbatim>\<open>errno\<close>;
  \<^item> \<open>res_nsearch name class type anslen\<close>: the return value, the octets stored in the answer
    buffer and \<^verbatim>\<open>h_errno\<close>;
  \<^item> \<open>little_endian\<close>: the byte order of the host, which \<^verbatim>\<open>memcpy\<close> and \<^verbatim>\<open>ntohs\<close> depend on.
\<close>

record libresolv =
  ns_initparse :: "uint8_t list \<Rightarrow> int \<times> ns_msg"
  ns_parserr :: "ns_msg \<Rightarrow> nat \<Rightarrow> nat \<Rightarrow> int \<times> ns_msg \<times> ns_rr \<times> int"
  dn_expand :: "uint8_t list \<Rightarrow> int \<Rightarrow> nat \<Rightarrow> int \<times> string"
  res_ninit :: "int \<times> int"
  res_nsearch :: "string \<Rightarrow> int \<Rightarrow> int \<Rightarrow> nat \<Rightarrow> int \<times> uint8_t list \<times> int"
  strerror :: "int \<Rightarrow> string"
  hstrerror :: "int \<Rightarrow> string"
  little_endian :: bool

subsection \<open>ResourceRecord\<close>

text \<open>
  A member \<^verbatim>\<open>x_\<close> of a class is the field \<open>m_x\<close>. \<open>m_octets\<close> holds the octets that the members
  \<^verbatim>\<open>start_\<close> and \<^verbatim>\<open>end_\<close> delimit; the two pointers are \<open>m_start\<close>, offset 0, and \<open>m_end\<close>, the
  number of octets.
\<close>

record ResourceRecord =
  m_record :: ns_rr
  m_octets :: "uint8_t list"
  m_pos :: nat

definition m_start :: "ResourceRecord \<Rightarrow> int" where
  "m_start r = 0"

definition m_end :: "ResourceRecord \<Rightarrow> int" where
  "m_end r = int (length (m_octets r))"

definition rawData :: "ResourceRecord \<Rightarrow> int \<times> nat" where
  "rawData r = (ns_rr_rdata (m_record r), ns_rr_rdlen (m_record r))"

text \<open>\<open>deref r p\<close> is \<^verbatim>\<open>*p\<close> and \<open>octets_between r p q\<close> the range \<^verbatim>\<open>[p, q)\<close>, for pointers into the message.\<close>

definition deref :: "ResourceRecord \<Rightarrow> int \<Rightarrow> uint8_t" where
  "deref r p = m_octets r ! nat p"

definition octets_between :: "ResourceRecord \<Rightarrow> int \<Rightarrow> int \<Rightarrow> uint8_t list" where
  "octets_between r p q = take (nat (q - p)) (drop (nat p) (m_octets r))"

text \<open>
  The library hands out records whose payload lies inside the message (\<^verbatim>\<open>ns_parserr\<close> fails
  with \<^verbatim>\<open>EMSGSIZE\<close> otherwise); the decoders that read \<^verbatim>\<open>data[i]\<close> for \<^verbatim>\<open>i < len\<close> rely on it.
\<close>

definition payload_in_message :: "ResourceRecord \<Rightarrow> bool" where
  "payload_in_message r =
     (m_start r \<le> fst (rawData r) \<and> fst (rawData r) + int (snd (rawData r)) \<le> m_end r)"

definition payload :: "ResourceRecord \<Rightarrow> uint8_t list" where
  "payload r = octets_between r (fst (rawData r)) (fst (rawData r) + int (snd (rawData r)))"

section \<open>The record decoders\<close>

definition asTXT :: "ResourceRecord \<Rightarrow> error + string" where
  "asTXT r =
     (let (data, len) = rawData r in
      if len = 0 \<or> unat (deref r data) > len - 1
      then Inl (runtime_error ''Invalid DNS TXT record received'')
      else Inr (map to_char (octets_between r (data + 1) (data + 1 + int (unat (deref r data))))))"

definition asA :: "ResourceRecord \<Rightarrow> error + string" where
  "asA r =
     (let (data, len) = rawData r in
      if len \<noteq> 4 then Inl (runtime_error ''Invalid DNS A record receive'')
      else Inr (snprintf 20
        (printf_d (deref r data) @ ''.'' @ printf_d (deref r (data + 1)) @ ''.'' @
         printf_d (deref r (data + 2)) @ ''.'' @ printf_d (deref r (data + 3)))))"

definition asAAAA :: "ResourceRecord \<Rightarrow> error + string" where
  "asAAAA r =
     (let (data, len) = rawData r in
      if len \<noteq> 16 then Inl (runtime_error ''Invalid DNS A record receive'')
      else Inr (snprintf 60
        (printf_02x (deref r data) @ printf_02x (deref r (data + 1)) @ '':'' @
         printf_02x (deref r (data + 2)) @ printf_02x (deref r (data + 3)) @ '':'' @
         printf_02x (deref r (data + 4)) @ printf_02x (deref r (data + 5)) @ '':'' @
         printf_02x (deref r (data + 6)) @ printf_02x (deref r (data + 7)) @ '':'' @
         printf_02x (deref r (data + 8)) @ printf_02x (deref r (data + 9)) @ '':'' @
         printf_02x (deref r (data + 10)) @ printf_02x (deref r (data + 11)) @ '':'' @
         printf_02x (deref r (data + 12)) @ printf_02x (deref r (data + 13)) @ '':'' @
         printf_02x (deref r (data + 14)) @ printf_02x (deref r (data + 15)))))"

definition asCNAME :: "ResourceRecord \<Rightarrow> error + string" where
  "asCNAME r = asTXT r"

subsection \<open>SRV\<close>

record SrvHeader =
  priority :: uint16_t
  weight :: uint16_t
  port :: uint16_t

text \<open>
  \<open>load16 le b0 b1\<close> is the \<^verbatim>\<open>uint16_t\<close> whose two octets in memory are \<open>b0\<close> then \<open>b1\<close>, as
  \<^verbatim>\<open>memcpy\<close> leaves it, and \<open>ntohs\<close> swaps the octets on a little-endian host only.
\<close>

definition load16 :: "bool \<Rightarrow> uint8_t \<Rightarrow> uint8_t \<Rightarrow> uint16_t" where
  "load16 le b0 b1 = (if le then word_cat b1 b0 else word_cat b0 b1)"

definition ntohs :: "bool \<Rightarrow> uint16_t \<Rightarrow> uint16_t" where
  "ntohs le x =
     (if le then word_cat (ucast x :: uint8_t) (ucast (drop_bit 8 x) :: uint8_t) else x)"

definition memcpy_SrvHeader :: "bool \<Rightarrow> ResourceRecord \<Rightarrow> int \<Rightarrow> SrvHeader" where
  "memcpy_SrvHeader le r data =
     \<lparr> priority = load16 le (deref r data) (deref r (data + 1)),
       weight = load16 le (deref r (data + 2)) (deref r (data + 3)),
       port = load16 le (deref r (data + 4)) (deref r (data + 5)) \<rparr>"

text \<open>\<open>store buf s\<close> is the buffer \<open>buf\<close> after a callee has stored \<open>s\<close> at its start.\<close>

definition store :: "'a list \<Rightarrow> 'a list \<Rightarrow> 'a list" where
  "store buf s = take (length buf) s @ drop (length s) buf"

text \<open>\<^verbatim>\<open>std::string::find\<close> of one character: its first position, or \<^verbatim>\<open>npos\<close>.\<close>

fun find_char :: "string \<Rightarrow> char \<Rightarrow> nat option" where
  "find_char [] c = None"
| "find_char (x # xs) c = (if x = c then Some 0 else map_option Suc (find_char xs c))"

definition asSRV :: "libresolv \<Rightarrow> ResourceRecord \<Rightarrow> error + string" where
  "asSRV lib r =
     (let (data, len) = rawData r in
      if data < m_start r \<or> data + 6 > m_end r
      then Inl (runtime_error (''Incorrect result '' @ to_string (m_pos r) @
                  '' of SRV answer: Incorrect result size''))
      else
        let header = memcpy_SrvHeader (little_endian lib) r data;
            header = header\<lparr>port := ntohs (little_endian lib) (port header)\<rparr>;
            header = header\<lparr>priority := ntohs (little_endian lib) (priority header)\<rparr>;
            header = header\<lparr>weight := ntohs (little_endian lib) (weight header)\<rparr>;
            name = replicate 8192 CHR ''@'';
            (sz, stored) = dn_expand lib (m_octets r) (data + 6) (length name);
            name = store name stored
        in if sz < 1
           then Inl (runtime_error (''Incorrect result '' @ to_string (m_pos r) @
                       '' of SRV answer: Invalid hostname format''))
           else (case find_char name NUL of
                   None \<Rightarrow> Inl length_error
                 | Some k \<Rightarrow>
                     Inr (take k name @ '':'' @ to_string (unat (port header)) @
                          '',prio='' @ to_string (unat (priority header)) @
                          '',weight='' @ to_string (unat (weight header)))))"

definition read :: "libresolv \<Rightarrow> ResourceRecord \<Rightarrow> QueryType \<Rightarrow> error + string" where
  "read lib r ty =
     (if ty = QueryType_A then asA r
      else if ty = QueryType_AAAA then asAAAA r
      else if ty = QueryType_SRV then asSRV lib r
      else if ty = QueryType_TXT then asTXT r
      else if ty = QueryType_CNAME then asCNAME r
      else Inr '''')"

section \<open>The response parser\<close>

text \<open>
  The constructor of \<^verbatim>\<open>ResourceRecord\<close>. \<^verbatim>\<open>ns_parserr\<close> updates the handle it is given, so the
  handle is returned with the record.
\<close>

definition ResourceRecord_ctor ::
  "libresolv \<Rightarrow> ns_msg \<Rightarrow> nat \<Rightarrow> error + (ns_msg \<times> ResourceRecord)" where
  "ResourceRecord_ctor lib msg pos =
     (let (rc, msg', rr, errno) = ns_parserr lib msg ns_s_an pos in
      if rc \<noteq> 0
      then Inl (runtime_error (''Invalid record '' @ to_string pos @
                  '' of DNS answer: '' @ strerror lib errno))
      else Inr (msg', \<lparr> m_record = rr, m_octets = msg_octets msg, m_pos = pos \<rparr>))"

record DNSReponse =
  m_raw_data :: "uint8_t list"
  m_records :: "ResourceRecord list"
  m_answer :: ns_msg

text \<open>The loop \<^verbatim>\<open>for (size_t i = 0; i < nrecords; i++) records_.emplace_back(&answer_, i)\<close>.\<close>

function emplace_records ::
  "libresolv \<Rightarrow> nat \<Rightarrow> nat \<Rightarrow> ns_msg \<Rightarrow> ResourceRecord list
     \<Rightarrow> error + (ns_msg \<times> ResourceRecord list)" where
  "emplace_records lib nrecords i answer records =
     (if i < nrecords
      then (case ResourceRecord_ctor lib answer i of
              Inl e \<Rightarrow> Inl e
            | Inr (answer', r) \<Rightarrow> emplace_records lib nrecords (i + 1) answer' (records @ [r]))
      else Inr (answer, records))"
  by pat_completeness auto
termination
  by (relation "measure (\<lambda>(lib, nrecords, i, answer, records). nrecords - i)") auto

declare emplace_records.simps [simp del]

definition DNSReponse_ctor :: "libresolv \<Rightarrow> string \<Rightarrow> uint8_t list \<Rightarrow> error + DNSReponse" where
  "DNSReponse_ctor lib search raw_data =
     (let (rc, answer) = ns_initparse lib raw_data in
      if rc \<noteq> 0
      then Inl (runtime_error (''Invalid DNS answer for '' @ [dquote] @ search @ [dquote]))
      else
        let nrecords = ns_msg_count answer ns_s_an in
        if nrecords = 0
        then Inr \<lparr> m_raw_data = raw_data, m_records = [], m_answer = answer \<rparr>
        else (case emplace_records lib nrecords 0 answer [] of
                Inl e \<Rightarrow> Inl e
              | Inr (answer', records) \<Rightarrow>
                  Inr \<lparr> m_raw_data = raw_data, m_records = records, m_answer = answer' \<rparr>))"

text \<open>
  For stating what the loop does: \<open>handle_before lib answer i\<close> is the handle that the loop gives
  \<^verbatim>\<open>ns_parserr\<close> for record \<open>i\<close> when the records before it were extracted, \<open>extracted\<close> tells
  whether that call returns 0, and \<open>record_at\<close> is the \<^verbatim>\<open>ResourceRecord\<close> then constructed.
\<close>

fun handle_before :: "libresolv \<Rightarrow> ns_msg \<Rightarrow> nat \<Rightarrow> ns_msg" where
  "handle_before lib answer 0 = answer"
| "handle_before lib answer (Suc i) =
     fst (snd (ns_parserr lib (handle_before lib answer i) ns_s_an i))"

definition extracted :: "libresolv \<Rightarrow> ns_msg \<Rightarrow> nat \<Rightarrow> bool" where
  "extracted lib answer i = (fst (ns_parserr lib (handle_before lib answer i) ns_s_an i) = 0)"

definition record_at :: "libresolv \<Rightarrow> ns_msg \<Rightarrow> nat \<Rightarrow> ResourceRecord" where
  "record_at lib answer i =
     \<lparr> m_record = fst (snd (snd (ns_parserr lib (handle_before lib answer i) ns_s_an i))),
       m_octets = msg_octets (handle_before lib answer i),
       m_pos = i \<rparr>"

definition errno_at :: "libresolv \<Rightarrow> ns_msg \<Rightarrow> nat \<Rightarrow> int" where
  "errno_at lib answer i = snd (snd (snd (ns_parserr lib (handle_before lib answer i) ns_s_an i)))"

section \<open>The resolver session\<close>

definition DNSController_ctor :: "libresolv \<Rightarrow> error + unit" where
  "DNSController_ctor lib =
     (let (rc, errno) = res_ninit lib in
      if rc \<noteq> 0
      then Inl (runtime_error (''Could not perform DNS lookup, res_ninit() failed: '' @
                  strerror lib errno))
      else Inr ())"

text \<open>\<^verbatim>\<open>name.c_str()\<close> as a C function reads it: the characters before the first NUL.\<close>

definition c_str :: "string \<Rightarrow> string" where
  "c_str s = takeWhile (\<lambda>c. c \<noteq> NUL) s"

text \<open>\<^verbatim>\<open>std::vector::resize\<close>: cut, or filled up with zero octets.\<close>

definition resize :: "uint8_t list \<Rightarrow> nat \<Rightarrow> uint8_t list" where
  "resize v n = take n v @ replicate (n - length v) 0"

text \<open>
  \<open>Lookup_answer\<close> is \<^verbatim>\<open>DNSController::Lookup\<close> up to its last line: the vector \<^verbatim>\<open>answer\<close> that is
  moved into the \<^verbatim>\<open>DNSReponse\<close>, with the size it was allocated with.
\<close>

definition Lookup_answer ::
  "libresolv \<Rightarrow> string \<Rightarrow> QueryClass \<Rightarrow> QueryType \<Rightarrow> nat \<times> (error + uint8_t list)" where
  "Lookup_answer lib name cls ty =
     (let answer = replicate 65536 (0 :: uint8_t);
          (result, stored, h_errno) = res_nsearch lib (c_str name) cls ty (length answer);
          answer' = store answer stored
      in (length answer,
          if result < 0
          then Inl (runtime_error (''Failed to look up '' @ [dquote] @ name @ [dquote] @ '': '' @
                      hstrerror lib h_errno))
          else Inr (resize answer' (nat result))))"

definition Lookup ::
  "libresolv \<Rightarrow> string \<Rightarrow> QueryClass \<Rightarrow> QueryType \<Rightarrow> error + DNSReponse" where
  "Lookup lib name cls ty =
     (case snd (Lookup_answer lib name cls ty) of
        Inl e \<Rightarrow> Inl e
      | Inr answer \<Rightarrow> DNSReponse_ctor lib name answer)"

section \<open>The query task\<close>

record DNSWorker =
  m_result :: "string list"
  m_name :: string
  m_cls :: QueryClass
  m_type :: QueryType

text \<open>
  The loop of \<^verbatim>\<open>DNSWorker::Execute\<close> over the records. An exception leaves in \<^verbatim>\<open>result_\<close> what
  the loop had stored before it.
\<close>

fun read_records ::
  "libresolv \<Rightarrow> QueryType \<Rightarrow> ResourceRecord list \<Rightarrow> string list
     \<Rightarrow> string list \<times> error option" where
  "read_records lib ty [] result = (result, None)"
| "read_records lib ty (record # records) result =
     (case read lib record ty of
        Inl e \<Rightarrow> (result, Some e)
      | Inr s \<Rightarrow> read_records lib ty records (result @ [s]))"

definition Execute :: "libresolv \<Rightarrow> DNSWorker \<Rightarrow> DNSWorker \<times> error option" where
  "Execute lib w =
     (case DNSController_ctor lib of
        Inl e \<Rightarrow> (w, Some e)
      | Inr controller \<Rightarrow>
          (case Lookup lib (m_name w) (m_cls w) (m_type w) of
             Inl e \<Rightarrow> (w, Some e)
           | Inr response \<Rightarrow>
               (let (result, e) = read_records lib (m_type w) (m_records response) (m_result w)
                in (w\<lparr>m_result := result\<rparr>, e))))"

text \<open>
  What the callback is called with. The worker runs \<^verbatim>\<open>Execute\<close> once; \<^verbatim>\<open>OnOK\<close>, which passes the
  strings of \<^verbatim>\<open>result_\<close> to the callback, runs only when \<^verbatim>\<open>Execute\<close> raised nothing, and an
  exception is passed to the callback as the error.
\<close>

datatype outcome = Succeeded "string list" | Failed error

definition OnOK :: "DNSWorker \<Rightarrow> outcome" where
  "OnOK w = Succeeded (m_result w)"

definition DNSWorker_ctor :: "string \<Rightarrow> QueryClass \<Rightarrow> QueryType \<Rightarrow> DNSWorker" where
  "DNSWorker_ctor name cls ty = \<lparr> m_result = [], m_name = name, m_cls = cls, m_type = ty \<rparr>"

definition run_worker :: "libresolv \<Rightarrow> DNSWorker \<Rightarrow> outcome" where
  "run_worker lib w =
     (case Execute lib w of
        (w', None) \<Rightarrow> OnOK w'
      | (w', Some e) \<Rightarrow> Failed e)"

definition lookup :: "libresolv \<Rightarrow> string \<Rightarrow> int \<Rightarrow> int \<Rightarrow> outcome" where
  "lookup lib query cls ty = run_worker lib (DNSWorker_ctor query cls ty)"

section \<open>A reference resolver library\<close>

text \<open>
  Modelled from the spec: the resolver library (\<^verbatim>\<open>ns_initparse\<close>, \<^verbatim>\<open>ns_parserr\<close>, \<^verbatim>\<open>dn_expand\<close>,
  \<^verbatim>\<open>res_nsearch\<close>) is not among the sources. The functions of this section follow the DNS wire
  format that the spec refers to: a header of six 16-bit fields, records made of a name, type,
  class, TTL, payload length and payload, and names made of length-prefixed labels that may
  end in a compression pointer. They give the parameters of the model a value to compute
  examples with; the properties below are proved for every library.
\<close>

definition get16 :: "uint8_t list \<Rightarrow> nat \<Rightarrow> nat" where
  "get16 m p = 256 * unat (m ! p) + unat (m ! (p + 1))"

definition EMSGSIZE :: int where "EMSGSIZE = 90"
definition ENODEV :: int where "ENODEV = 19"

text \<open>The position after the name at \<open>cp\<close>, without following pointers.\<close>

function ref_name_skip :: "uint8_t list \<Rightarrow> nat \<Rightarrow> nat option" where
  "ref_name_skip m cp =
     (if cp < length m then
        (let n = unat (m ! cp) in
         if n = 0 then Some (cp + 1)
         else if n div 64 = 0 then ref_name_skip m (cp + 1 + n)
         else if n div 64 = 3 then (if cp + 2 > length m then None else Some (cp + 2))
         else None)
      else if cp > length m then None else Some cp)"
  by pat_completeness auto
termination
  by (relation "measure (\<lambda>(m, cp). length m - cp)") auto

declare ref_name_skip.simps [simp del]

text \<open>The position after \<open>count\<close> records of a section that start at \<open>ptr\<close>.\<close>

fun ref_skiprr :: "uint8_t list \<Rightarrow> nat \<Rightarrow> nat \<Rightarrow> nat \<Rightarrow> nat option" where
  "ref_skiprr m ptr section 0 = (if ptr > length m then None else Some ptr)"
| "ref_skiprr m ptr section (Suc count) =
     (case ref_name_skip m ptr of
        None \<Rightarrow> None
      | Some p \<Rightarrow>
          if section \<noteq> ns_s_qd
          then (if p + 4 + 6 > length m then None
                else ref_skiprr m (p + 4 + 6 + get16 m (p + 4 + 4)) section count)
          else ref_skiprr m (p + 4) section count)"

text \<open>
  The labels of the name at \<open>srcp\<close>, following pointers, and the number of octets the name
  takes at \<open>src\<close>. \<open>checked\<close> counts the octets looked at, to stop on a pointer loop; \<open>used\<close>
  counts the octets of the labels, at most 255 with their length octets.
\<close>

function ref_name_unpack ::
  "uint8_t list \<Rightarrow> nat \<Rightarrow> nat \<Rightarrow> nat \<Rightarrow> nat \<Rightarrow> nat option
     \<Rightarrow> (nat \<times> uint8_t list list) option" where
  "ref_name_unpack m src srcp checked used len =
     (let n = unat (m ! srcp) in
      if n = 0 then Some (case len of None \<Rightarrow> srcp + 1 - src | Some l \<Rightarrow> l, [])
      else if n div 64 = 0 then
        (if n + 1 \<ge> 255 - used \<or> n \<ge> length m - (srcp + 1) then None
         else map_option (\<lambda>(l, labels). (l, take n (drop (srcp + 1) m) # labels))
                (ref_name_unpack m src (srcp + 1 + n) (checked + n + 1) (used + n + 1) len))
      else if n div 64 = 3 then
        (if srcp + 1 \<ge> length m then None
         else
           let target = (n mod 64) * 256 + unat (m ! (srcp + 1)) in
           if target \<ge> length m \<or> checked + 2 \<ge> length m then None
           else ref_name_unpack m src target (checked + 2) used
                  (case len of None \<Rightarrow> Some (srcp + 2 - src) | Some l \<Rightarrow> Some l))
      else None)"
  by pat_completeness auto
termination
  by (relation "measures [\<lambda>(m, src, srcp, checked, used, len). length m - checked,
                          \<lambda>(m, src, srcp, checked, used, len). length m - srcp]") auto

declare ref_name_unpack.simps [simp del]

text \<open>The presentation form of a name: labels joined by periods, special octets escaped.\<close>

definition special :: "nat \<Rightarrow> bool" where
  "special c = (c \<in> {0x22, 0x2E, 0x3B, 0x5C, 0x28, 0x29, 0x40, 0x24})"

definition printable :: "nat \<Rightarrow> bool" where
  "printable c = (0x20 < c \<and> c < 0x7F)"

definition ntop_octet :: "uint8_t \<Rightarrow> string" where
  "ntop_octet b =
     (let c = unat b in
      if special c then [CHR 0x5C, to_char b]
      else if \<not> printable c
      then [CHR 0x5C, digit_char (c div 100), digit_char (c div 10 mod 10), digit_char (c mod 10)]
      else [to_char b])"

fun ntop_labels :: "uint8_t list list \<Rightarrow> string" where
  "ntop_labels [] = []"
| "ntop_labels [l] = concat (map ntop_octet l)"
| "ntop_labels (l # ls) = concat (map ntop_octet l) @ ''.'' @ ntop_labels ls"

definition ref_name_ntop :: "uint8_t list list \<Rightarrow> string" where
  "ref_name_ntop labels = (if labels = [] then ''.'' else ntop_labels labels)"

definition ref_dn_expand :: "uint8_t list \<Rightarrow> int \<Rightarrow> nat \<Rightarrow> int \<times> string" where
  "ref_dn_expand m src dstsiz =
     (if src < 0 \<or> src \<ge> int (length m) then (- 1, [])
      else (case ref_name_unpack m (nat src) (nat src) 0 0 None of
              None \<Rightarrow> (- 1, [])
            | Some (n, labels) \<Rightarrow>
                let text = ref_name_ntop labels in
                if length text + 1 > dstsiz then (- 1, [])
                else (int n, (if n > 0 \<and> hd text = CHR ''.'' then NUL # tl text else text) @ [NUL])))"

definition ref_setsection :: "ns_msg \<Rightarrow> nat \<Rightarrow> ns_msg" where
  "ref_setsection handle sect =
     handle\<lparr> msg_sect := sect,
             msg_rrnum := (if sect = ns_s_max then - 1 else 0),
             msg_ptr := (if sect = ns_s_max then 0 else msg_sections handle ! sect) \<rparr>"

text \<open>The start of each section (0 for an empty one) and the position after the last.\<close>

fun ref_sections :: "uint8_t list \<Rightarrow> nat list \<Rightarrow> nat \<Rightarrow> nat \<Rightarrow> (nat list \<times> nat) option" where
  "ref_sections m [] i ptr = Some ([], ptr)"
| "ref_sections m (c # cs) i ptr =
     (if c = 0 then map_option (\<lambda>(ss, e). (0 # ss, e)) (ref_sections m cs (i + 1) ptr)
      else (case ref_skiprr m ptr i c of
              None \<Rightarrow> None
            | Some ptr' \<Rightarrow> map_option (\<lambda>(ss, e). (ptr # ss, e)) (ref_sections m cs (i + 1) ptr')))"

definition ref_ns_initparse :: "uint8_t list \<Rightarrow> int \<times> ns_msg" where
  "ref_ns_initparse m =
     (let h = \<lparr> msg_octets = m, msg_id = 0, msg_flags = 0, msg_counts = [], msg_sections = [],
                msg_sect = ns_s_max, msg_rrnum = - 1, msg_ptr = 0 \<rparr>
      in if length m < 12 then (- 1, h)
         else
           let counts = map (\<lambda>i. get16 m (4 + 2 * i)) [0..<4] in
           (case ref_sections m counts 0 12 of
              None \<Rightarrow> (- 1, h)
            | Some (sections, e) \<Rightarrow>
                if e \<noteq> length m then (- 1, h)
                else (0, h\<lparr> msg_id := of_nat (get16 m 0), msg_flags := of_nat (get16 m 2),
                           msg_counts := counts, msg_sections := sections \<rparr>)))"

text \<open>The record at \<open>ptr\<close> and the position after it; the payload pointer of a question is NULL, here \<open>- 1\<close>.\<close>

definition ref_parse_rr :: "uint8_t list \<Rightarrow> nat \<Rightarrow> nat \<Rightarrow> (ns_rr \<times> nat) option" where
  "ref_parse_rr m section ptr =
     (let (b, stored) = ref_dn_expand m (int ptr) 1025 in
      if b < 0 then None
      else
        let p = ptr + nat b in
        if p + 4 > length m then None
        else
          let rr = \<lparr> rr_name = c_str stored, rr_type = of_nat (get16 m p),
                     rr_class = of_nat (get16 m (p + 2)), rr_ttl = 0, rdlength = 0, rdata = - 1 \<rparr>;
              p = p + 4
          in if section = ns_s_qd then Some (rr, p)
             else if p + 6 > length m then None
             else
               let ttl = 65536 * get16 m p + get16 m (p + 2);
                   len = get16 m (p + 4);
                   p = p + 6
               in if p + len > length m then None
                  else Some (rr\<lparr> rr_ttl := of_nat ttl, rdlength := of_nat len, rdata := int p \<rparr>,
                             p + len))"

definition ref_ns_parserr :: "ns_msg \<Rightarrow> nat \<Rightarrow> nat \<Rightarrow> int \<times> ns_msg \<times> ns_rr \<times> int" where
  "ref_ns_parserr handle section rrnum =
     (let rr0 = \<lparr> rr_name = [], rr_type = 0, rr_class = 0, rr_ttl = 0, rdlength = 0, rdata = - 1 \<rparr>;
          m = msg_octets handle
      in if section \<ge> ns_s_max then (- 1, handle, rr0, ENODEV)
         else
           let h = (if section \<noteq> msg_sect handle then ref_setsection handle section else handle)
           in if rrnum \<ge> msg_counts h ! section then (- 1, h, rr0, ENODEV)
              else
                let h = (if int rrnum < msg_rrnum h then ref_setsection h section else h)
                in (case ref_skiprr m (msg_ptr h) section (rrnum - nat (msg_rrnum h)) of
                      None \<Rightarrow> (- 1, h, rr0, EMSGSIZE)
                    | Some ptr \<Rightarrow>
                        let h = h\<lparr> msg_ptr := ptr, msg_rrnum := int rrnum \<rparr> in
                        (case ref_parse_rr m section ptr of
                           None \<Rightarrow> (- 1, h, rr0, EMSGSIZE)
                         | Some (rr, ptr') \<Rightarrow>
                             let h = h\<lparr> msg_ptr := ptr', msg_rrnum := int rrnum + 1 \<rparr>
                             in (0, if msg_rrnum h > int (msg_counts h ! section)
                                    then ref_setsection h (section + 1) else h, rr, 0))))"

definition ref_strerror :: "int \<Rightarrow> string" where
  "ref_strerror e =
     (if e = EMSGSIZE then ''Message too long''
      else if e = ENODEV then ''No such device''
      else ''Unknown error '' @ to_string (nat e))"

definition ref_hstrerror :: "int \<Rightarrow> string" where
  "ref_hstrerror h =
     (if h = 1 then ''Unknown host''
      else if h = 2 then ''Host name lookup failure''
      else if h = 3 then ''Unknown server error''
      else if h = 4 then ''No address associated with name''
      else ''Unknown resolver error'')"

text \<open>
  \<open>reference_lib network\<close> is the library on a little-endian host, where the network answers
  the query \<open>(name, class, type)\<close> with the message \<open>Inr octets\<close> or fails with \<open>Inl h_errno\<close>.
\<close>

definition reference_lib ::
  "(string \<Rightarrow> int \<Rightarrow> int \<Rightarrow> int + uint8_t list) \<Rightarrow> libresolv" where
  "reference_lib network =
     \<lparr> ns_initparse = ref_ns_initparse,
       ns_parserr = ref_ns_parserr,
       dn_expand = ref_dn_expand,
       res_ninit = (0, 0),
       res_nsearch = (\<lambda>name cls ty anslen.
          case network name cls ty of
            Inl h \<Rightarrow> (- 1, [], h)
          | Inr octets \<Rightarrow> (int (length octets), take anslen octets, 0)),
       strerror = ref_strerror,
       hstrerror = ref_hstrerror,
       little_endian = True \<rparr>"

section \<open>Example records and responses\<close>

text \<open>
  Records as the constructor would leave them, each over a message that holds its payload: a
  TXT payload of one character string and one of two, an A payload that starts at offset 2, an
  AAAA payload, an SRV payload with the name \<^verbatim>\<open>svc.example.com\<close>, and an SRV payload whose name
  announces a label of 5 octets where 1 is left.
\<close>

definition txt_record :: ResourceRecord where
  "txt_record =
     \<lparr> m_record = \<lparr> rr_name = [], rr_type = 16, rr_class = 1, rr_ttl = 60, rdlength = 4, rdata = 0 \<rparr>,
       m_octets = [3, 0x61, 0x62, 0x63], m_pos = 0 \<rparr>"

definition txt_two_strings :: ResourceRecord where
  "txt_two_strings =
     \<lparr> m_record = \<lparr> rr_name = [], rr_type = 16, rr_class = 1, rr_ttl = 60, rdlength = 8, rdata = 0 \<rparr>,
       m_octets = [3, 0x61, 0x62, 0x63, 3, 0x64, 0x65, 0x66], m_pos = 0 \<rparr>"

definition a_record :: ResourceRecord where
  "a_record =
     \<lparr> m_record = \<lparr> rr_name = [], rr_type = 1, rr_class = 1, rr_ttl = 60, rdlength = 4, rdata = 2 \<rparr>,
       m_octets = [0, 4, 192, 168, 0, 1], m_pos = 0 \<rparr>"

definition aaaa_record :: ResourceRecord where
  "aaaa_record =
     \<lparr> m_record = \<lparr> rr_name = [], rr_type = 28, rr_class = 1, rr_ttl = 60, rdlength = 16, rdata = 0 \<rparr>,
       m_octets = [0x20, 0x01, 0x0D, 0xB8, 0, 0, 0, 0, 0, 0, 0, 0, 0, 0, 0, 0x01], m_pos = 0 \<rparr>"

definition srv_record :: ResourceRecord where
  "srv_record =
     \<lparr> m_record = \<lparr> rr_name = [], rr_type = 33, rr_class = 1, rr_ttl = 60, rdlength = 23, rdata = 0 \<rparr>,
       m_octets = [0, 1, 0, 2, 0, 0x50,
                   3, 0x73, 0x76, 0x63, 7, 0x65, 0x78, 0x61, 0x6D, 0x70, 0x6C, 0x65,
                   3, 0x63, 0x6F, 0x6D, 0],
       m_pos = 0 \<rparr>"

definition srv_bad_name :: ResourceRecord where
  "srv_bad_name =
     \<lparr> m_record = \<lparr> rr_name = [], rr_type = 33, rr_class = 1, rr_ttl = 60, rdlength = 8, rdata = 0 \<rparr>,
       m_octets = [0, 1, 0, 2, 0, 0x50, 5, 0x61],
       m_pos = 0 \<rparr>"

text \<open>
  An SRV record whose payload has 2 octets only; the message goes on after it with five more
  octets, as it does when another record follows.
\<close>

definition srv_short :: ResourceRecord where
  "srv_short =
     \<lparr> m_record = \<lparr> rr_name = [], rr_type = 33, rr_class = 1, rr_ttl = 60, rdlength = 2, rdata = 0 \<rparr>,
       m_octets = [0, 1, 0, 2, 0, 0x50, 0],
       m_pos = 0 \<rparr>"

text \<open>
  Whole responses, and the library whose network answers every query with a given one:
  a header that declares no record; one TXT answer for the root name whose payload is
  \<^verbatim>\<open>05 61\<close>, a length octet of 5 before a single octet; and one answer whose owner name is a
  compression pointer to offset 255, beyond the end of the message.
\<close>

definition answering :: "uint8_t list \<Rightarrow> libresolv" where
  "answering octets = reference_lib (\<lambda>name cls ty. Inr octets)"

definition empty_answer :: "uint8_t list" where
  "empty_answer = [0x12, 0x34, 0x81, 0x80, 0, 0, 0, 0, 0, 0, 0, 0]"

definition bad_txt_answer :: "uint8_t list" where
  "bad_txt_answer = [0x12, 0x34, 0x81, 0x80, 0, 0, 0, 1, 0, 0, 0, 0,
                     0, 0, 16, 0, 1, 0, 0, 0, 60, 0, 2, 5, 0x61]"

definition bad_owner_answer :: "uint8_t list" where
  "bad_owner_answer = [0x12, 0x34, 0x81, 0x80, 0, 0, 0, 1, 0, 0, 0, 0,
                       0xC0, 0xFF, 0, 16, 0, 1, 0, 0, 0, 60, 0, 0]"

text \<open>
  A response that declares one answer and ends in the middle of it, after the class of the
  record; and a response with two TXT answers for the root name, the first with the payload
  \<^verbatim>\<open>03 61 62 63\<close> and the second with the payload \<^verbatim>\<open>05 61\<close>.
\<close>

definition truncated_answer :: "uint8_t list" where
  "truncated_answer = [0x12, 0x34, 0x81, 0x80, 0, 0, 0, 1, 0, 0, 0, 0,
                       0, 0, 16, 0, 1, 0, 0, 0]"

definition two_txt_answer :: "uint8_t list" where
  "two_txt_answer = [0x12, 0x34, 0x81, 0x80, 0, 0, 0, 2, 0, 0, 0, 0,
                     0, 0, 16, 0, 1, 0, 0, 0, 60, 0, 4, 3, 0x61, 0x62, 0x63,
                     0, 0, 16, 0, 1, 0, 0, 0, 60, 0, 2, 5, 0x61]"

section \<open>Properties of the helper functions\<close>

lemma payload_eq:
  "payload r = take (snd (rawData r)) (drop (nat (fst (rawData r))) (m_octets r))"
  by (simp add: payload_def octets_between_def)

lemma length_payload:
  "payload_in_message r \<Longrightarrow> length (payload r) = snd (rawData r)"
  by (auto simp: payload_eq payload_in_message_def m_start_def m_end_def)

lemma deref_payload:
  assumes "payload_in_message r" "i < snd (rawData r)"
  shows "deref r (fst (rawData r) + int i) = payload r ! i"
proof -
  have "0 \<le> fst (rawData r)"
    using assms(1) by (simp add: payload_in_message_def m_start_def)
  then have "nat (fst (rawData r) + int i) = nat (fst (rawData r)) + i"
    by (simp add: nat_add_distrib)
  moreover have "nat (fst (rawData r)) + i < length (m_octets r)"
    using assms by (simp add: payload_in_message_def m_start_def m_end_def) linarith
  ultimately show ?thesis
    using assms(2) by (simp add: deref_def payload_eq)
qed

lemma deref_payload0:
  assumes "payload_in_message r" "0 < snd (rawData r)"
  shows "deref r (fst (rawData r)) = hd (payload r)"
proof -
  have "payload r \<noteq> []"
    using assms length_payload by fastforce
  then show ?thesis
    using deref_payload [OF assms(1), of 0] assms(2) by (simp add: hd_conv_nth)
qed

lemma octets_between_payload:
  assumes "payload_in_message r" "i + n \<le> snd (rawData r)"
  shows "octets_between r (fst (rawData r) + int i) (fst (rawData r) + int i + int n)
           = take n (drop i (payload r))"
proof -
  have "0 \<le> fst (rawData r)"
    using assms(1) by (simp add: payload_in_message_def m_start_def)
  then have "nat (fst (rawData r) + int i) = i + nat (fst (rawData r))"
    by (simp add: nat_add_distrib)
  then show ?thesis
    using assms(2) by (simp add: octets_between_def payload_eq drop_take min_def add.commute)
qed

lemma asTXT_payload:
  assumes "payload_in_message r"
  shows "asTXT r =
     (if payload r = [] \<or> unat (hd (payload r)) > length (payload r) - 1
      then Inl (runtime_error ''Invalid DNS TXT record received'')
      else Inr (map to_char (take (unat (hd (payload r))) (tl (payload r)))))"
proof (cases "snd (rawData r) = 0")
  case True
  then have "payload r = []"
    using length_payload [OF assms] by simp
  with True show ?thesis
    by (simp add: asTXT_def split_def)
next
  case False
  then have pos: "0 < snd (rawData r)" by simp
  have ne: "payload r \<noteq> []"
    using pos length_payload [OF assms] by auto
  have hd: "deref r (fst (rawData r)) = hd (payload r)"
    by (rule deref_payload0 [OF assms pos])
  show ?thesis
  proof (cases "unat (hd (payload r)) > snd (rawData r) - 1")
    case True
    then show ?thesis
      using ne by (simp add: asTXT_def split_def hd length_payload [OF assms])
  next
    case False
    then have "1 + unat (hd (payload r)) \<le> snd (rawData r)"
      using pos by linarith
    from octets_between_payload [OF assms this]
    have "octets_between r (fst (rawData r) + 1) (fst (rawData r) + 1 + int (unat (hd (payload r))))
            = take (unat (hd (payload r))) (tl (payload r))"
      by (simp add: drop_Suc)
    with False show ?thesis
      using ne pos by (simp add: asTXT_def split_def hd length_payload [OF assms])
  qed
qed

lemma unat_word_cat_8_8:
  "unat (word_cat (b0 :: uint8_t) (b1 :: uint8_t) :: uint16_t) = 256 * unat b0 + unat b1"
proof -
  have lt: "unat b0 < 256" "unat b1 < 256"
    using unsigned_less [of b0, where ?'a = nat] unsigned_less [of b1, where ?'a = nat] by simp_all
  then have small: "256 * unat b0 + unat b1 < 2 ^ LENGTH(16)"
    by simp
  have "(word_cat b0 b1 :: uint16_t) = of_nat (256 * unat b0 + unat b1)"
    by (simp add: word_cat_eq push_bit_eq_mult)
  also have "unat (of_nat (256 * unat b0 + unat b1) :: uint16_t) = 256 * unat b0 + unat b1"
    by (simp only: unat_of_nat mod_less [OF small])
  finally show ?thesis .
qed

lemma ntohs_load16_cat:
  "ntohs le (load16 le b0 b1) = word_cat b0 b1"
proof (cases le)
  case False
  then show ?thesis by (simp add: ntohs_def load16_def)
next
  case True
  have "word_cat (ucast (word_cat b1 b0 :: uint16_t) :: uint8_t)
          (ucast (drop_bit 8 (word_cat b1 b0 :: uint16_t)) :: uint8_t) = (word_cat b0 b1 :: uint16_t)"
    by (rule bit_word_eqI) (auto simp: bit_word_cat_iff bit_ucast_iff bit_drop_bit_eq dest: bit_imp_le_length)
  with True show ?thesis by (simp add: ntohs_def load16_def)
qed

lemma unat_ntohs_load16:
  "unat (ntohs le (load16 le b0 b1)) = 256 * unat b0 + unat b1"
  by (simp add: ntohs_load16_cat unat_word_cat_8_8)

lemma find_char_append:
  "c \<notin> set n \<Longrightarrow> find_char (n @ c # xs) c = Some (length n)"
  by (induction n) auto

lemma less_4_cases: "i < (4::nat) \<Longrightarrow> i = 0 \<or> i = 1 \<or> i = 2 \<or> i = 3"
  by arith

lemma less_8_cases:
  "i < (8::nat) \<Longrightarrow> i = 0 \<or> i = 1 \<or> i = 2 \<or> i = 3 \<or> i = 4 \<or> i = 5 \<or> i = 6 \<or> i = 7"
  by arith

lemma all_less_4:
  assumes "P 0" "P 1" "P 2" "P 3"
  shows "\<forall>i<(4::nat). P i"
  using assms less_4_cases by blast

lemma all_less_8:
  assumes "P 0" "P 1" "P 2" "P 3" "P 4" "P 5" "P 6" "P 7"
  shows "\<forall>i<(8::nat). P i"
  using assms less_8_cases by blast

lemma digit_cases:
  "d < (16::nat) \<Longrightarrow> d = 0 \<or> d = 1 \<or> d = 2 \<or> d = 3 \<or> d = 4 \<or> d = 5 \<or> d = 6 \<or> d = 7 \<or>
     d = 8 \<or> d = 9 \<or> d = 10 \<or> d = 11 \<or> d = 12 \<or> d = 13 \<or> d = 14 \<or> d = 15"
  by arith

lemma digit_val_digit_char: "d < 16 \<Longrightarrow> digit_val (digit_char d) = Some d"
  using digit_cases [of d] by (auto simp: digit_char_def digit_val_def)

lemma digit_char_decimal: "d < 10 \<Longrightarrow> digit_char d \<in> set ''0123456789''"
  using digit_cases [of d] by (auto simp: digit_char_def)

lemma digit_char_hex: "d < 16 \<Longrightarrow> digit_char d \<in> set ''0123456789abcdef''"
  using digit_cases [of d] by (auto simp: digit_char_def)

lemma value_of_snoc: "value_of b (s @ [c]) = b * value_of b s + the (digit_val c)"
  by (simp add: value_of_def)

lemma to_string_digits: "list_all (\<lambda>c. c \<in> set ''0123456789'') (to_string n)"
proof (induction n rule: to_string.induct)
  case (1 n)
  show ?case
  proof (cases "n < 10")
    case True
    then show ?thesis
      using digit_char_decimal [of n] by (subst to_string.simps) simp
  next
    case False
    then show ?thesis
      using 1 digit_char_decimal [of "n mod 10"] by (subst to_string.simps) simp
  qed
qed

lemma to_string_nonempty: "to_string n \<noteq> []"
  by (subst to_string.simps) simp

lemma is_decimal_to_string: "is_decimal (to_string n)"
  unfolding is_decimal_def using to_string_nonempty to_string_digits by blast

lemma value_of_to_string: "value_of 10 (to_string n) = n"
proof (induction n rule: to_string.induct)
  case (1 n)
  show ?case
  proof (cases "n < 10")
    case True
    then show ?thesis
      by (subst to_string.simps) (simp add: value_of_def digit_val_digit_char)
  next
    case False
    then have "value_of 10 (to_string (n div 10)) = n div 10"
      using 1 by simp
    then show ?thesis
      using False by (subst to_string.simps) (simp add: value_of_snoc digit_val_digit_char)
  qed
qed

lemma length_to_string_byte: "n < 256 \<Longrightarrow> length (to_string n) \<le> 3"
  by (simp add: to_string.simps [of n] to_string.simps [of "n div 10"]
        to_string.simps [of "n div 10 div 10"])

lemma printf_02x_digits:
  "printf_02x b = [digit_char (unat b div 16), digit_char (unat b mod 16)]"
proof -
  have lt: "unat b < 256"
    using unsigned_less [of b, where ?'a = nat] by simp
  show ?thesis
  proof (cases "unat b < 16")
    case True
    then show ?thesis
      by (simp add: printf_02x_def to_hex.simps [of "unat b"] digit_char_def)
  next
    case False
    moreover have "unat b div 16 < 16" using lt by simp
    ultimately show ?thesis
      by (simp add: printf_02x_def to_hex.simps [of "unat b"] to_hex.simps [of "unat b div 16"])
  qed
qed

lemma split_on_no_sep: "sep \<notin> set s \<Longrightarrow> split_on sep s = [s]"
  by (induction s) auto

lemma split_on_append: "sep \<notin> set a \<Longrightarrow> split_on sep (a @ sep # b) = a # split_on sep b"
  by (induction a) auto

lemma ResourceRecord_ctor_at:
  "ResourceRecord_ctor lib (handle_before lib answer i) i =
     (if extracted lib answer i
      then Inr (handle_before lib answer (Suc i), record_at lib answer i)
      else Inl (runtime_error (''Invalid record '' @ to_string i @ '' of DNS answer: '' @
                  strerror lib (errno_at lib answer i))))"
  by (simp add: ResourceRecord_ctor_def extracted_def record_at_def errno_at_def split_def Let_def)

lemma emplace_records_all:
  assumes "\<forall>j. i \<le> j \<and> j < n \<longrightarrow> extracted lib answer j"
  shows "emplace_records lib n i (handle_before lib answer i) records =
           Inr (handle_before lib answer (max i n), records @ map (record_at lib answer) [i..<n])"
  using assms
proof (induction "n - i" arbitrary: i records)
  case 0
  then show ?case
    by (subst emplace_records.simps) (simp add: max_def)
next
  case (Suc d)
  then have lt: "i < n" and ok: "extracted lib answer i" by auto
  have step: "emplace_records lib n (Suc i) (handle_before lib answer (Suc i))
                (records @ [record_at lib answer i]) =
              Inr (handle_before lib answer (max (Suc i) n),
                   (records @ [record_at lib answer i]) @ map (record_at lib answer) [Suc i..<n])"
    using Suc.hyps(2) Suc.prems by (intro Suc.hyps(1)) auto
  show ?case
    using lt ok step
    by (subst emplace_records.simps)
       (simp add: ResourceRecord_ctor_at upt_conv_Cons max_def del: handle_before.simps)
qed

lemma emplace_records_fails:
  assumes "i \<le> k" "k < n" "\<not> extracted lib answer k"
    and "\<forall>j. i \<le> j \<and> j < k \<longrightarrow> extracted lib answer j"
  shows "emplace_records lib n i (handle_before lib answer i) records =
           Inl (runtime_error (''Invalid record '' @ to_string k @ '' of DNS answer: '' @
                  strerror lib (errno_at lib answer k)))"
  using assms
proof (induction "k - i" arbitrary: i records)
  case 0
  then have "i = k" by simp
  with 0 show ?case
    by (subst emplace_records.simps) (simp add: ResourceRecord_ctor_at del: handle_before.simps)
next
  case (Suc d)
  then have lt: "i < k" and ok: "extracted lib answer i" by auto
  have step: "emplace_records lib n (Suc i) (handle_before lib answer (Suc i))
                (records @ [record_at lib answer i]) =
              Inl (runtime_error (''Invalid record '' @ to_string k @ '' of DNS answer: '' @
                  strerror lib (errno_at lib answer k)))"
    using Suc.hyps(2) Suc.prems lt by (intro Suc.hyps(1)) auto
  show ?case
    using lt ok step Suc.prems(2)
    by (subst emplace_records.simps)
       (simp add: ResourceRecord_ctor_at del: handle_before.simps)
qed

lemma read_records_result:
  "read_records lib ty records result = (result', None) \<Longrightarrow>
     \<exists>ss. result' = result @ ss \<and> length ss = length records \<and>
       (\<forall>i<length records. read lib (records ! i) ty = Inr (ss ! i))"
proof (induction records arbitrary: result)
  case Nil
  then show ?case by simp
next
  case (Cons r rs)
  from Cons.prems obtain s where s: "read lib r ty = Inr s"
    and rest: "read_records lib ty rs (result @ [s]) = (result', None)"
    by (auto split: sum.splits)
  from Cons.IH [OF rest] obtain ss where ss: "result' = (result @ [s]) @ ss"
    "length ss = length rs" "\<forall>i<length rs. read lib (rs ! i) ty = Inr (ss ! i)"
    by blast
  have "\<forall>i<length (r # rs). read lib ((r # rs) ! i) ty = Inr ((s # ss) ! i)"
  proof (intro allI impI)
    fix i assume "i < length (r # rs)"
    then show "read lib ((r # rs) ! i) ty = Inr ((s # ss) ! i)"
      using s ss(3) by (cases i) auto
  qed
  with ss(1,2) show ?case
    by (intro exI [of _ "s # ss"]) simp
qed

lemma read_records_error:
  "read_records lib ty records result = (result', Some e) \<Longrightarrow>
     \<exists>k<length records. read lib (records ! k) ty = Inl e \<and>
       (\<forall>j<k. \<not> isl (read lib (records ! j) ty))"
proof (induction records arbitrary: result)
  case Nil
  then show ?case by simp
next
  case (Cons r rs)
  show ?case
  proof (cases "read lib r ty")
    case (Inl e')
    with Cons.prems have "e' = e" by simp
    with Inl have "read lib ((r # rs) ! 0) ty = Inl e" by simp
    then show ?thesis by (intro exI [of _ 0]) simp
  next
    case (Inr s)
    with Cons.prems have "read_records lib ty rs (result @ [s]) = (result', Some e)" by simp
    from Cons.IH [OF this] obtain k where k: "k < length rs" "read lib (rs ! k) ty = Inl e"
      "\<forall>j<k. \<not> isl (read lib (rs ! j) ty)" by blast
    have "\<forall>j<Suc k. \<not> isl (read lib ((r # rs) ! j) ty)"
    proof (intro allI impI)
      fix j assume "j < Suc k"
      then show "\<not> isl (read lib ((r # rs) ! j) ty)"
        using Inr k(3) by (cases j) auto
    qed
    with k(1,2) show ?thesis by (intro exI [of _ "Suc k"]) simp
  qed
qed

lemma read_records_first_error:
  assumes "k < length records" "read lib (records ! k) ty = Inl e"
    and "\<forall>j<k. \<not> isl (read lib (records ! j) ty)"
  shows "\<exists>result'. read_records lib ty records result = (result', Some e)"
  using assms
proof (induction records arbitrary: k result)
  case Nil
  then show ?case by simp
next
  case (Cons r rs)
  show ?case
  proof (cases k)
    case 0
    with Cons.prems show ?thesis by simp
  next
    case (Suc k')
    with Cons.prems(3) have "\<not> isl (read lib r ty)" by auto
    then obtain s where s: "read lib r ty = Inr s" by (cases "read lib r ty") auto
    have "\<exists>result'. read_records lib ty rs (result @ [s]) = (result', Some e)"
      using Cons.prems Suc by (intro Cons.IH [of k']) auto
    with s show ?thesis by simp
  qed
qed

section \<open>The decoders of character strings and of unknown types\<close>

lemmas record_eval =
  payload_in_message_def payload_def octets_between_def rawData_def ns_rr_rdata_def ns_rr_rdlen_def
  m_start_def m_end_def

text \<open>
  Claim C3. For a record whose payload lies in the message, \<open>asTXT\<close> fails exactly when the
  payload is empty or its first octet \<open>N\<close> is greater than the payload length minus one, the
  failure is the \<^verbatim>\<open>runtime_error\<close> of the TXT decoder, and otherwise the result is the \<open>N\<close>
  octets after the length octet. The result depends on the payload only, so decoding the same
  payload again gives the same result, and \<open>asCNAME\<close> is the same function.
\<close>

theorem asTXT_character_string:
  assumes "payload_in_message r"
  shows "(isl (asTXT r) \<longleftrightarrow> payload r = [] \<or> length (payload r) - 1 < unat (hd (payload r)))
       \<and> (isl (asTXT r) \<longrightarrow> asTXT r = Inl (runtime_error ''Invalid DNS TXT record received''))
       \<and> (\<not> isl (asTXT r) \<longrightarrow>
            asTXT r = Inr (map to_char (take (unat (hd (payload r))) (tl (payload r)))))
       \<and> (\<forall>r'. payload_in_message r' \<and> payload r' = payload r \<longrightarrow> asTXT r' = asTXT r)
       \<and> asCNAME r = asTXT r"
proof -
  have same: "\<forall>r'. payload_in_message r' \<and> payload r' = payload r \<longrightarrow> asTXT r' = asTXT r"
    using assms by (simp add: asTXT_payload)
  have fails: "isl (asTXT r) \<longleftrightarrow> payload r = [] \<or> length (payload r) - 1 < unat (hd (payload r))"
    using assms by (simp add: asTXT_payload)
  have msg: "isl (asTXT r) \<longrightarrow> asTXT r = Inl (runtime_error ''Invalid DNS TXT record received'')"
    using assms by (simp add: asTXT_payload)
  have decoded: "\<not> isl (asTXT r) \<longrightarrow>
      asTXT r = Inr (map to_char (take (unat (hd (payload r))) (tl (payload r))))"
    using assms by (simp add: asTXT_payload)
  have cname: "asCNAME r = asTXT r"
    by (simp add: asCNAME_def)
  from fails msg decoded same cname show ?thesis
    by (intro conjI)
qed

theorem asTXT_character_string_witness:
  "payload_in_message txt_record \<and> asTXT txt_record = Inr ''abc'' \<and> asCNAME txt_record = Inr ''abc''"
proof -
  have p: "payload_in_message txt_record"
    by (simp add: txt_record_def record_eval)
  have pl: "payload txt_record = [3, 0x61, 0x62, 0x63]"
    by (simp add: txt_record_def record_eval)
  have c: "to_char 0x61 = CHR ''a''" "to_char 0x62 = CHR ''b''" "to_char 0x63 = CHR ''c''"
    by code_simp+
  from asTXT_character_string [OF p]
  have "isl (asTXT txt_record) \<longleftrightarrow>
          payload txt_record = [] \<or> length (payload txt_record) - 1 < unat (hd (payload txt_record))"
    and "\<not> isl (asTXT txt_record) \<longrightarrow>
          asTXT txt_record =
            Inr (map to_char (take (unat (hd (payload txt_record))) (tl (payload txt_record))))"
    and "asCNAME txt_record = asTXT txt_record"
    by blast+
  then show ?thesis
    using p by (simp add: pl c)
qed

text \<open>
  Claim C9. When the length octet \<open>N\<close> of a TXT or CNAME payload is less than the payload
  length minus one, decoding succeeds with exactly the \<open>N\<close> octets after the length octet, and
  the octets after them have no influence: every record whose payload starts with the same
  \<open>N + 1\<close> octets decodes to the same text, with no error.
\<close>

theorem asTXT_first_string_only:
  assumes "payload_in_message r" "payload r \<noteq> []"
    and "unat (hd (payload r)) < length (payload r) - 1"
  shows "asTXT r = Inr (map to_char (take (unat (hd (payload r))) (tl (payload r))))
       \<and> length (take (unat (hd (payload r))) (tl (payload r))) = unat (hd (payload r))
       \<and> (\<forall>r'. payload_in_message r' \<and>
               take (unat (hd (payload r)) + 1) (payload r') = take (unat (hd (payload r)) + 1) (payload r)
               \<longrightarrow> asTXT r' = asTXT r)"
proof -
  let ?n = "unat (hd (payload r))"
  have res: "asTXT r = Inr (map to_char (take ?n (tl (payload r))))"
    using assms by (simp add: asTXT_payload)
  have len: "length (take ?n (tl (payload r))) = ?n"
    using assms by simp
  have "asTXT r' = asTXT r"
    if r': "payload_in_message r'" and eq: "take (?n + 1) (payload r') = take (?n + 1) (payload r)"
    for r'
  proof -
    have "length (take (?n + 1) (payload r)) = ?n + 1"
      using assms by simp
    then have l': "?n + 1 \<le> length (payload r')"
      using eq by (metis length_take min.cobounded1)
    then have ne': "payload r' \<noteq> []" by auto
    have "hd (take (?n + 1) (payload r')) = hd (take (?n + 1) (payload r))"
      using eq by simp
    then have hd': "hd (payload r') = hd (payload r)"
      by simp
    have "tl (take (?n + 1) (payload r')) = tl (take (?n + 1) (payload r))"
      using eq by simp
    then have tl': "take ?n (tl (payload r')) = take ?n (tl (payload r))"
      by (simp add: tl_take)
    show ?thesis
      using r' l' ne' hd' tl' res by (simp add: asTXT_payload)
  qed
  with res len show ?thesis by blast
qed

theorem asTXT_first_string_only_witness:
  "payload_in_message txt_two_strings \<and> payload txt_two_strings \<noteq> [] \<and>
   unat (hd (payload txt_two_strings)) < length (payload txt_two_strings) - 1 \<and>
   asTXT txt_two_strings = Inr ''abc'' \<and> asTXT txt_record = asTXT txt_two_strings"
proof -
  have p: "payload_in_message txt_two_strings" and p': "payload_in_message txt_record"
    by (simp_all add: txt_two_strings_def txt_record_def record_eval)
  have pl: "payload txt_two_strings = [3, 0x61, 0x62, 0x63, 3, 0x64, 0x65, 0x66]"
    and pl': "payload txt_record = [3, 0x61, 0x62, 0x63]"
    by (simp_all add: txt_two_strings_def txt_record_def record_eval)
  have c: "to_char 0x61 = CHR ''a''" "to_char 0x62 = CHR ''b''" "to_char 0x63 = CHR ''c''"
    by code_simp+
  have ne: "payload txt_two_strings \<noteq> []"
    and lt: "unat (hd (payload txt_two_strings)) < length (payload txt_two_strings) - 1"
    by (simp_all add: pl)
  from asTXT_first_string_only [OF p ne lt]
  have res: "asTXT txt_two_strings =
          Inr (map to_char (take (unat (hd (payload txt_two_strings))) (tl (payload txt_two_strings))))"
    and same: "payload_in_message txt_record \<and>
          take (unat (hd (payload txt_two_strings)) + 1) (payload txt_record) =
          take (unat (hd (payload txt_two_strings)) + 1) (payload txt_two_strings)
          \<longrightarrow> asTXT txt_record = asTXT txt_two_strings"
    by blast+
  have "asTXT txt_record = asTXT txt_two_strings"
    using same p' by (simp add: pl pl')
  moreover have "asTXT txt_two_strings = Inr ''abc''"
    using res by (simp add: pl c)
  ultimately show ?thesis
    using p ne lt by simp
qed

text \<open>
  Claim C10. When the payload length is not 16, \<open>asAAAA\<close> fails with the message
  \<^verbatim>\<open>Invalid DNS A record receive\<close>, which is also the failure of \<open>asA\<close> on every record whose
  payload length is not 4.
\<close>

theorem asAAAA_failure_names_A:
  assumes "snd (rawData r) \<noteq> 16"
  shows "asAAAA r = Inl (runtime_error ''Invalid DNS A record receive'')
       \<and> (\<forall>r'. snd (rawData r') \<noteq> 4 \<longrightarrow> asA r' = asAAAA r)"
  using assms by (simp add: asAAAA_def asA_def split_def)

theorem asAAAA_failure_names_A_witness:
  "snd (rawData txt_record) \<noteq> 16 \<and>
   asAAAA txt_record = Inl (runtime_error ''Invalid DNS A record receive'') \<and>
   asA txt_two_strings = asAAAA txt_record"
proof -
  have a: "snd (rawData txt_record) \<noteq> 16" and b: "snd (rawData txt_two_strings) \<noteq> 4"
    by (simp_all add: txt_record_def txt_two_strings_def record_eval)
  from asAAAA_failure_names_A [OF a]
  have "asAAAA txt_record = Inl (runtime_error ''Invalid DNS A record receive'')"
    and "snd (rawData txt_two_strings) \<noteq> 4 \<longrightarrow> asA txt_two_strings = asAAAA txt_record"
    by blast+
  then show ?thesis
    using a b by simp
qed

text \<open>
  Claim C7. For a query type outside \<open>A\<close>, \<open>AAAA\<close>, \<open>SRV\<close>, \<open>TXT\<close> and \<open>CNAME\<close>, \<open>read\<close> returns the
  empty string and raises nothing, whatever the record and the library.
\<close>

theorem read_unrecognised_type:
  assumes "ty \<notin> {QueryType_A, QueryType_AAAA, QueryType_SRV, QueryType_TXT, QueryType_CNAME}"
  shows "read lib r ty = Inr ''''"
  using assms by (simp add: read_def)

theorem read_unrecognised_type_witness:
  "(99 :: int) \<notin> {QueryType_A, QueryType_AAAA, QueryType_SRV, QueryType_TXT, QueryType_CNAME} \<and>
   read (reference_lib (\<lambda>name cls ty. Inl 1)) txt_record 99 = Inr ''''"
proof -
  have a: "(99 :: int) \<notin> {QueryType_A, QueryType_AAAA, QueryType_SRV, QueryType_TXT, QueryType_CNAME}"
    by (simp add: QueryType_A_def QueryType_AAAA_def QueryType_SRV_def QueryType_TXT_def
          QueryType_CNAME_def)
  show ?thesis
    using read_unrecognised_type [OF a] a by simp
qed

section \<open>The resolver session and the empty response\<close>

lemma length_store: "length (store buf s) = max (length buf) (min (length buf) (length s))"
  by (simp add: store_def) 

lemma length_resize: "length (resize v n) = n"
  by (simp add: resize_def)

lemma resize_store_replicate:
  assumes "k \<le> length s" "length s \<le> n"
  shows "resize (store (replicate n x) s) k = take k s"
  using assms by (simp add: resize_def store_def)

lemma Lookup_answer_reference:
  assumes "network (c_str name) cls ty = Inr octets" "length octets \<le> 65536"
  shows "Lookup_answer (reference_lib network) name cls ty = (65536, Inr octets)"
  using assms by (simp add: Lookup_answer_def reference_lib_def resize_store_replicate)

lemma DNSReponse_ctor_raw_data:
  "DNSReponse_ctor lib search raw = Inr resp \<Longrightarrow> m_raw_data resp = raw"
  by (auto simp: DNSReponse_ctor_def split_def Let_def split: if_splits sum.splits)

text \<open>
  Claim C8. Every call of \<open>Lookup\<close> allocates the answer buffer with 65536 octets, that is
  64 KiB, and passes this size to \<^verbatim>\<open>res_nsearch\<close>. Whenever the query succeeds, that is whenever
  \<^verbatim>\<open>res_nsearch\<close> returns a length that is not negative, a vector is handed on to the
  constructor of the response; it has exactly that length and is the buffer cut to it, so it
  holds the first octets that the resolver stored; and it is the \<^verbatim>\<open>raw_data_\<close> of the response.
  When \<^verbatim>\<open>res_nsearch\<close> returns a negative value no vector is handed on.
\<close>

theorem Lookup_answer_buffer:
  "fst (Lookup_answer lib name cls ty) = 64 * 1024
   \<and> fst (Lookup_answer lib name cls ty) = 65536
   \<and> (0 \<le> fst (res_nsearch lib (c_str name) cls ty 65536) \<longrightarrow>
         (\<exists>raw. snd (Lookup_answer lib name cls ty) = Inr raw \<and>
            int (length raw) = fst (res_nsearch lib (c_str name) cls ty 65536) \<and>
            (length raw \<le> 65536 \<longrightarrow>
               raw = take (length raw)
                       (store (replicate 65536 0)
                          (fst (snd (res_nsearch lib (c_str name) cls ty 65536))))) \<and>
            (length raw \<le> length (fst (snd (res_nsearch lib (c_str name) cls ty 65536))) \<and>
             length (fst (snd (res_nsearch lib (c_str name) cls ty 65536))) \<le> 65536 \<longrightarrow>
               raw = take (length raw) (fst (snd (res_nsearch lib (c_str name) cls ty 65536)))) \<and>
            Lookup lib name cls ty = DNSReponse_ctor lib name raw))
   \<and> (fst (res_nsearch lib (c_str name) cls ty 65536) < 0 \<longrightarrow>
         snd (Lookup_answer lib name cls ty) =
           Inl (runtime_error (''Failed to look up '' @ [dquote] @ name @ [dquote] @ '': '' @
                  hstrerror lib (snd (snd (res_nsearch lib (c_str name) cls ty 65536))))) \<and>
         Lookup lib name cls ty =
           Inl (runtime_error (''Failed to look up '' @ [dquote] @ name @ [dquote] @ '': '' @
                  hstrerror lib (snd (snd (res_nsearch lib (c_str name) cls ty 65536))))))
   \<and> (\<forall>raw. snd (Lookup_answer lib name cls ty) = Inr raw \<longrightarrow>
         0 \<le> fst (res_nsearch lib (c_str name) cls ty 65536) \<and>
         int (length raw) = fst (res_nsearch lib (c_str name) cls ty 65536) \<and>
         (length raw \<le> 65536 \<longrightarrow>
            raw = take (length raw)
                    (store (replicate 65536 0) (fst (snd (res_nsearch lib (c_str name) cls ty 65536))))))
   \<and> (\<forall>resp. Lookup lib name cls ty = Inr resp \<longrightarrow>
         int (length (m_raw_data resp)) = fst (res_nsearch lib (c_str name) cls ty 65536))"
proof -
  obtain result stored h_errno
    where call: "res_nsearch lib (c_str name) cls ty 65536 = (result, stored, h_errno)"
    by (cases "res_nsearch lib (c_str name) cls ty 65536") auto
  let ?buffer = "store (replicate 65536 (0 :: uint8_t)) stored"
  let ?failure = "runtime_error (''Failed to look up '' @ [dquote] @ name @ [dquote] @ '': '' @
                    hstrerror lib h_errno)"
  have eq: "Lookup_answer lib name cls ty =
      (65536, if result < 0 then Inl ?failure else Inr (resize ?buffer (nat result)))"
    by (simp add: Lookup_answer_def call)
  have size: "fst (Lookup_answer lib name cls ty) = 65536"
    by (simp add: eq)
  have buffer: "length ?buffer = 65536"
    by (simp add: length_store)
  have cut: "resize ?buffer k = take k ?buffer" if "k \<le> 65536" for k
    using that buffer by (simp add: resize_def)
  have start: "take k ?buffer = take k stored" if "k \<le> length stored" "length stored \<le> 65536" for k
    using that by (simp add: store_def)
  have handed: "\<exists>raw. snd (Lookup_answer lib name cls ty) = Inr raw \<and>
            int (length raw) = result \<and>
            (length raw \<le> 65536 \<longrightarrow> raw = take (length raw) ?buffer) \<and>
            (length raw \<le> length stored \<and> length stored \<le> 65536 \<longrightarrow>
               raw = take (length raw) stored) \<and>
            Lookup lib name cls ty = DNSReponse_ctor lib name raw"
    if nn: "0 \<le> result"
  proof -
    let ?raw = "resize ?buffer (nat result)"
    have a: "snd (Lookup_answer lib name cls ty) = Inr ?raw"
      using nn by (simp add: eq)
    have len: "length ?raw = nat result"
      by (rule length_resize)
    have i: "int (length ?raw) = result"
      using nn len by simp
    have tk: "length ?raw \<le> 65536 \<longrightarrow> ?raw = take (length ?raw) ?buffer"
      using cut [of "nat result"] len by metis
    have st: "length ?raw \<le> length stored \<and> length stored \<le> 65536 \<longrightarrow>
                ?raw = take (length ?raw) stored"
    proof
      assume b: "length ?raw \<le> length stored \<and> length stored \<le> 65536"
      then have "nat result \<le> 65536" using len by linarith
      then have "?raw = take (nat result) ?buffer" by (rule cut)
      also have "\<dots> = take (nat result) stored"
        using b len by (intro start) simp_all
      finally show "?raw = take (length ?raw) stored"
        using len by metis
    qed
    have l: "Lookup lib name cls ty = DNSReponse_ctor lib name ?raw"
      by (simp add: Lookup_def a)
    from a i tk st l show ?thesis by blast
  qed
  have refused: "snd (Lookup_answer lib name cls ty) = Inl ?failure \<and>
                 Lookup lib name cls ty = Inl ?failure"
    if "result < 0"
    using that by (simp add: Lookup_def eq)
  have raw: "0 \<le> result \<and> int (length raw) = result \<and>
             (length raw \<le> 65536 \<longrightarrow> raw = take (length raw) ?buffer)"
    if r: "snd (Lookup_answer lib name cls ty) = Inr raw" for raw
  proof -
    from r have nn: "0 \<le> result"
      by (auto simp: eq split: if_splits)
    from handed [OF nn] r show ?thesis
      using nn by auto
  qed
  have resp: "int (length (m_raw_data resp)) = result" if "Lookup lib name cls ty = Inr resp" for resp
  proof -
    from that obtain raw' where a: "snd (Lookup_answer lib name cls ty) = Inr raw'"
      and c: "DNSReponse_ctor lib name raw' = Inr resp"
      by (auto simp: Lookup_def split: sum.splits)
    from raw [OF a] DNSReponse_ctor_raw_data [OF c] show ?thesis by simp
  qed
  have "0 \<le> result \<longrightarrow>
         (\<exists>raw. snd (Lookup_answer lib name cls ty) = Inr raw \<and>
            int (length raw) = result \<and>
            (length raw \<le> 65536 \<longrightarrow> raw = take (length raw) ?buffer) \<and>
            (length raw \<le> length stored \<and> length stored \<le> 65536 \<longrightarrow>
               raw = take (length raw) stored) \<and>
            Lookup lib name cls ty = DNSReponse_ctor lib name raw)"
    and "result < 0 \<longrightarrow> snd (Lookup_answer lib name cls ty) = Inl ?failure \<and>
                 Lookup lib name cls ty = Inl ?failure"
    and "\<forall>raw. snd (Lookup_answer lib name cls ty) = Inr raw \<longrightarrow>
         0 \<le> result \<and> int (length raw) = result \<and>
         (length raw \<le> 65536 \<longrightarrow> raw = take (length raw) ?buffer)"
    and "\<forall>resp. Lookup lib name cls ty = Inr resp \<longrightarrow> int (length (m_raw_data resp)) = result"
    using handed refused raw resp by blast+
  with size show ?thesis
    unfolding call fst_conv snd_conv by simp
qed

lemma ref_ns_initparse_empty_answer:
  "ref_ns_initparse empty_answer =
     (0, \<lparr> msg_octets = empty_answer, msg_id = 0x1234, msg_flags = 0x8180,
            msg_counts = [0, 0, 0, 0], msg_sections = [0, 0, 0, 0],
            msg_sect = 4, msg_rrnum = - 1, msg_ptr = 0 \<rparr>)"
  by (simp add: ref_ns_initparse_def empty_answer_def get16_def ns_s_max_def upt_rec Let_def)

theorem Lookup_answer_buffer_witness:
  "fst (res_nsearch (answering empty_answer) (c_str ''example.com'') 1 1 65536) = 12 \<and>
   fst (Lookup_answer (answering empty_answer) ''example.com'' 1 1) = 65536 \<and>
   snd (Lookup_answer (answering empty_answer) ''example.com'' 1 1) = Inr empty_answer \<and>
   length empty_answer = 12 \<and>
   Lookup (answering empty_answer) ''example.com'' 1 1 =
     DNSReponse_ctor (answering empty_answer) ''example.com'' empty_answer \<and>
   (\<exists>resp. Lookup (answering empty_answer) ''example.com'' 1 1 = Inr resp \<and>
      m_raw_data resp = empty_answer)"
proof -
  let ?lib = "answering empty_answer"
  have call: "res_nsearch ?lib (c_str ''example.com'') 1 1 65536 = (12, empty_answer, 0)"
    by (simp add: answering_def reference_lib_def empty_answer_def)
  have l12: "length empty_answer = 12"
    by (simp add: empty_answer_def)
  from Lookup_answer_buffer [of ?lib "''example.com''" 1 1]
  have size: "fst (Lookup_answer ?lib ''example.com'' 1 1) = 65536"
    and "0 \<le> fst (res_nsearch ?lib (c_str ''example.com'') 1 1 65536) \<longrightarrow>
         (\<exists>raw. snd (Lookup_answer ?lib ''example.com'' 1 1) = Inr raw \<and>
            int (length raw) = fst (res_nsearch ?lib (c_str ''example.com'') 1 1 65536) \<and>
            (length raw \<le> length (fst (snd (res_nsearch ?lib (c_str ''example.com'') 1 1 65536))) \<and>
             length (fst (snd (res_nsearch ?lib (c_str ''example.com'') 1 1 65536))) \<le> 65536 \<longrightarrow>
               raw = take (length raw) (fst (snd (res_nsearch ?lib (c_str ''example.com'') 1 1 65536)))) \<and>
            Lookup ?lib ''example.com'' 1 1 = DNSReponse_ctor ?lib ''example.com'' raw)"
    by blast+
  then obtain raw where a: "snd (Lookup_answer ?lib ''example.com'' 1 1) = Inr raw"
    and len: "int (length raw) = 12"
    and tk: "raw = take (length raw) empty_answer"
    and l: "Lookup ?lib ''example.com'' 1 1 = DNSReponse_ctor ?lib ''example.com'' raw"
    unfolding call fst_conv snd_conv by (auto simp: l12)
  from len tk have raw: "raw = empty_answer"
    by (simp add: l12)
  have ctor: "DNSReponse_ctor ?lib ''example.com'' empty_answer =
      Inr \<lparr> m_raw_data = empty_answer, m_records = [],
             m_answer = snd (ref_ns_initparse empty_answer) \<rparr>"
    by (simp add: DNSReponse_ctor_def answering_def reference_lib_def
          ref_ns_initparse_empty_answer ns_msg_count_def ns_s_an_def)
  have "\<exists>resp. Lookup ?lib ''example.com'' 1 1 = Inr resp \<and> m_raw_data resp = empty_answer"
    using l ctor by (simp add: raw)
  moreover have "fst (res_nsearch ?lib (c_str ''example.com'') 1 1 65536) = 12"
    by (simp add: call)
  ultimately show ?thesis
    using size a l l12 unfolding raw by (intro conjI)
qed

lemma lookup_unfold:
  "lookup lib name cls ty =
     (if fst (res_ninit lib) \<noteq> 0
      then Failed (runtime_error (''Could not perform DNS lookup, res_ninit() failed: '' @
                     strerror lib (snd (res_ninit lib))))
      else (case Lookup lib name cls ty of
              Inl e \<Rightarrow> Failed e
            | Inr response \<Rightarrow>
                (case read_records lib ty (m_records response) [] of
                   (result, None) \<Rightarrow> Succeeded result
                 | (result, Some e) \<Rightarrow> Failed e)))"
proof (cases "fst (res_ninit lib) = 0")
  case False
  then show ?thesis
    by (simp add: lookup_def run_worker_def Execute_def DNSController_ctor_def split_def)
next
  case True
  then have ctor: "DNSController_ctor lib = Inr ()"
    by (simp add: DNSController_ctor_def split_def)
  show ?thesis
  proof (cases "Lookup lib name cls ty")
    case (Inl e)
    with True ctor show ?thesis
      by (simp add: lookup_def run_worker_def Execute_def DNSWorker_ctor_def)
  next
    case (Inr response)
    obtain result e where rr: "read_records lib ty (m_records response) [] = (result, e)"
      by (cases "read_records lib ty (m_records response) []") auto
    with True ctor Inr show ?thesis
      by (cases e) (simp_all add: lookup_def run_worker_def Execute_def DNSWorker_ctor_def OnOK_def)
  qed
qed

text \<open>
  Claim C6. When \<^verbatim>\<open>ns_initparse\<close> accepts the message and the header declares no answer
  record, the response has no records and the lookup succeeds with the empty list of
  strings. When \<^verbatim>\<open>ns_initparse\<close> rejects the message, the constructor fails with
  \<^verbatim>\<open>Invalid DNS answer for "<name>"\<close>, where the name is the one that was queried.
\<close>

theorem DNSReponse_zero_answers:
  "(fst (ns_initparse lib raw) = 0 \<and> ns_msg_count (snd (ns_initparse lib raw)) ns_s_an = 0 \<longrightarrow>
      DNSReponse_ctor lib search raw =
        Inr \<lparr> m_raw_data = raw, m_records = [], m_answer = snd (ns_initparse lib raw) \<rparr>)
   \<and> (fst (ns_initparse lib raw) \<noteq> 0 \<longrightarrow>
        DNSReponse_ctor lib search raw =
          Inl (runtime_error (''Invalid DNS answer for '' @ [dquote] @ search @ [dquote])))
   \<and> (fst (res_ninit lib) = 0 \<and> snd (Lookup_answer lib search cls ty) = Inr raw \<and>
        fst (ns_initparse lib raw) = 0 \<and> ns_msg_count (snd (ns_initparse lib raw)) ns_s_an = 0 \<longrightarrow>
        lookup lib search cls ty = Succeeded [])
   \<and> (fst (res_ninit lib) = 0 \<and> snd (Lookup_answer lib search cls ty) = Inr raw \<and>
        fst (ns_initparse lib raw) \<noteq> 0 \<longrightarrow>
        lookup lib search cls ty =
          Failed (runtime_error (''Invalid DNS answer for '' @ [dquote] @ search @ [dquote])))"
proof -
  have zero: "DNSReponse_ctor lib search raw =
        Inr \<lparr> m_raw_data = raw, m_records = [], m_answer = snd (ns_initparse lib raw) \<rparr>"
    if "fst (ns_initparse lib raw) = 0" "ns_msg_count (snd (ns_initparse lib raw)) ns_s_an = 0"
    using that by (simp add: DNSReponse_ctor_def split_def)
  have bad: "DNSReponse_ctor lib search raw =
        Inl (runtime_error (''Invalid DNS answer for '' @ [dquote] @ search @ [dquote]))"
    if "fst (ns_initparse lib raw) \<noteq> 0"
    using that by (simp add: DNSReponse_ctor_def split_def)
  have ok: "lookup lib search cls ty = Succeeded []"
    if "fst (res_ninit lib) = 0" "snd (Lookup_answer lib search cls ty) = Inr raw"
      "fst (ns_initparse lib raw) = 0" "ns_msg_count (snd (ns_initparse lib raw)) ns_s_an = 0"
    using that zero by (simp add: lookup_unfold Lookup_def)
  have failed: "lookup lib search cls ty =
        Failed (runtime_error (''Invalid DNS answer for '' @ [dquote] @ search @ [dquote]))"
    if "fst (res_ninit lib) = 0" "snd (Lookup_answer lib search cls ty) = Inr raw"
      "fst (ns_initparse lib raw) \<noteq> 0"
    using that bad by (simp add: lookup_unfold Lookup_def)
  from zero bad ok failed show ?thesis by blast
qed

theorem DNSReponse_zero_answers_witness:
  "fst (ns_initparse (answering empty_answer) empty_answer) = 0 \<and>
   ns_msg_count (snd (ns_initparse (answering empty_answer) empty_answer)) ns_s_an = 0 \<and>
   lookup (answering empty_answer) ''example.com'' 1 16 = Succeeded [] \<and>
   fst (ns_initparse (answering (take 5 empty_answer)) (take 5 empty_answer)) \<noteq> 0 \<and>
   lookup (answering (take 5 empty_answer)) ''example.com'' 1 16 =
     Failed (runtime_error (''Invalid DNS answer for '' @ [dquote] @ ''example.com'' @ [dquote]))"
proof -
  let ?lib = "answering empty_answer" and ?bad = "answering (take 5 empty_answer)"
  have init: "fst (res_ninit ?lib) = 0" "fst (res_ninit ?bad) = 0"
    by (simp_all add: answering_def reference_lib_def)
  have a: "snd (Lookup_answer ?lib ''example.com'' 1 16) = Inr empty_answer"
    unfolding answering_def
    by (subst Lookup_answer_reference [where octets = empty_answer]) (simp_all add: empty_answer_def)
  have b: "snd (Lookup_answer ?bad ''example.com'' 1 16) = Inr (take 5 empty_answer)"
    unfolding answering_def
    by (subst Lookup_answer_reference [where octets = "take 5 empty_answer"])
       (simp_all add: empty_answer_def)
  have p: "fst (ns_initparse ?lib empty_answer) = 0"
    and c: "ns_msg_count (snd (ns_initparse ?lib empty_answer)) ns_s_an = 0"
    by (simp_all add: answering_def reference_lib_def ref_ns_initparse_empty_answer
          ns_msg_count_def ns_s_an_def)
  have q: "fst (ns_initparse ?bad (take 5 empty_answer)) \<noteq> 0"
    by (simp add: answering_def reference_lib_def ref_ns_initparse_def empty_answer_def)
  from DNSReponse_zero_answers [of ?lib empty_answer "''example.com''" 1 16] init(1) a p c
  have "lookup ?lib ''example.com'' 1 16 = Succeeded []"
    by blast
  moreover
  from DNSReponse_zero_answers [of ?bad "take 5 empty_answer" "''example.com''" 1 16] init(2) b q
  have "lookup ?bad ''example.com'' 1 16 =
     Failed (runtime_error (''Invalid DNS answer for '' @ [dquote] @ ''example.com'' @ [dquote]))"
    by blast
  ultimately show ?thesis
    using p c q by (intro conjI)
qed

section \<open>The address decoders\<close>

lemma printf_d_decimal:
  "is_decimal (printf_d b)" "length (printf_d b) \<le> 3" "value_of 10 (printf_d b) = unat b"
  "CHR ''.'' \<notin> set (printf_d b)"
proof -
  have lt: "unat b < 256"
    using unsigned_less [of b, where ?'a = nat] by simp
  show "is_decimal (printf_d b)"
    by (simp add: printf_d_def is_decimal_to_string)
  show "length (printf_d b) \<le> 3"
    using lt by (simp add: printf_d_def length_to_string_byte)
  show "value_of 10 (printf_d b) = unat b"
    by (simp add: printf_d_def value_of_to_string)
  show "CHR ''.'' \<notin> set (printf_d b)"
  proof
    assume "CHR ''.'' \<in> set (printf_d b)"
    moreover have "\<forall>c\<in>set (to_string (unat b)). c \<in> set ''0123456789''"
      using to_string_digits [of "unat b"] by (simp only: list_all_iff)
    ultimately have "CHR ''.'' \<in> set ''0123456789''"
      by (simp only: printf_d_def)
    then show False by simp
  qed
qed

lemma split_on_4:
  assumes "sep \<notin> set a" "sep \<notin> set b" "sep \<notin> set c" "sep \<notin> set d"
  shows "split_on sep (a @ [sep] @ b @ [sep] @ c @ [sep] @ d) = [a, b, c, d]"
  using assms by (simp add: split_on_append split_on_no_sep)

lemma asA_payload:
  assumes "payload_in_message r"
  shows "asA r =
     (if length (payload r) \<noteq> 4 then Inl (runtime_error ''Invalid DNS A record receive'')
      else Inr (printf_d (payload r ! 0) @ ''.'' @ printf_d (payload r ! 1) @ ''.'' @
                printf_d (payload r ! 2) @ ''.'' @ printf_d (payload r ! 3)))"
proof (cases "snd (rawData r) = 4")
  case False
  then show ?thesis
    using length_payload [OF assms] by (simp add: asA_def split_def)
next
  case True
  let ?s = "printf_d (payload r ! 0) @ ''.'' @ printf_d (payload r ! 1) @ ''.'' @
            printf_d (payload r ! 2) @ ''.'' @ printf_d (payload r ! 3)"
  have d: "deref r (fst (rawData r)) = payload r ! 0"
    "deref r (fst (rawData r) + 1) = payload r ! 1"
    "deref r (fst (rawData r) + 2) = payload r ! 2"
    "deref r (fst (rawData r) + 3) = payload r ! 3"
    using deref_payload [OF assms, of 0] deref_payload [OF assms, of 1]
      deref_payload [OF assms, of 2] deref_payload [OF assms, of 3] True
    by simp_all
  have "length ?s \<le> 19"
    using printf_d_decimal(2) [of "payload r ! 0"] printf_d_decimal(2) [of "payload r ! 1"]
      printf_d_decimal(2) [of "payload r ! 2"] printf_d_decimal(2) [of "payload r ! 3"]
    by simp
  then have "snprintf 20 ?s = ?s"
    by (simp add: snprintf_def)
  then show ?thesis
    using True length_payload [OF assms] by (simp add: asA_def split_def d)
qed

text \<open>
  Claim C4. For a record whose payload lies in the message, \<open>asA\<close> fails exactly when the
  payload is not 4 octets long, with the \<^verbatim>\<open>runtime_error\<close> of the A decoder. On a payload of 4
  octets the result splits at the periods into four groups; each is a decimal numeral of one
  to three digits whose value is the payload octet at the same position.
\<close>

theorem asA_dotted_decimal:
  assumes "payload_in_message r"
  shows "(isl (asA r) \<longleftrightarrow> length (payload r) \<noteq> 4)
       \<and> (isl (asA r) \<longrightarrow> asA r = Inl (runtime_error ''Invalid DNS A record receive''))
       \<and> (length (payload r) = 4 \<longrightarrow>
            (\<exists>s. asA r = Inr s \<and> length (split_on CHR ''.'' s) = 4 \<and>
               (\<forall>i<4. is_decimal (split_on CHR ''.'' s ! i) \<and>
                       length (split_on CHR ''.'' s ! i) \<le> 3 \<and>
                       value_of 10 (split_on CHR ''.'' s ! i) = unat (payload r ! i))))"
proof -
  have fails: "isl (asA r) \<longleftrightarrow> length (payload r) \<noteq> 4"
    by (simp add: asA_payload [OF assms])
  have msg: "isl (asA r) \<longrightarrow> asA r = Inl (runtime_error ''Invalid DNS A record receive'')"
    by (simp add: asA_payload [OF assms])
  have ok: "\<exists>s. asA r = Inr s \<and> length (split_on CHR ''.'' s) = 4 \<and>
               (\<forall>i<4. is_decimal (split_on CHR ''.'' s ! i) \<and>
                       length (split_on CHR ''.'' s ! i) \<le> 3 \<and>
                       value_of 10 (split_on CHR ''.'' s ! i) = unat (payload r ! i))"
    if four: "length (payload r) = 4"
  proof -
    let ?s = "printf_d (payload r ! 0) @ ''.'' @ printf_d (payload r ! 1) @ ''.'' @
              printf_d (payload r ! 2) @ ''.'' @ printf_d (payload r ! 3)"
    have res: "asA r = Inr ?s"
      using four by (simp add: asA_payload [OF assms])
    have groups: "split_on CHR ''.'' ?s =
        [printf_d (payload r ! 0), printf_d (payload r ! 1),
         printf_d (payload r ! 2), printf_d (payload r ! 3)]"
      using split_on_4 [OF printf_d_decimal(4) printf_d_decimal(4) printf_d_decimal(4)
          printf_d_decimal(4), of "payload r ! 0" "payload r ! 1" "payload r ! 2" "payload r ! 3"]
      by simp
    have each: "\<forall>i<4. is_decimal (split_on CHR ''.'' ?s ! i) \<and>
                       length (split_on CHR ''.'' ?s ! i) \<le> 3 \<and>
                       value_of 10 (split_on CHR ''.'' ?s ! i) = unat (payload r ! i)"
      unfolding groups by (rule all_less_4) (simp_all add: printf_d_decimal)
    have "length (split_on CHR ''.'' ?s) = 4"
      unfolding groups by simp
    with res each show ?thesis by blast
  qed
  from fails msg ok show ?thesis by blast
qed

theorem asA_dotted_decimal_witness:
  "payload_in_message a_record \<and> length (payload a_record) = 4 \<and>
   asA a_record = Inr ''192.168.0.1'' \<and>
   split_on CHR ''.'' ''192.168.0.1'' = [''192'', ''168'', ''0'', ''1'']"
proof -
  have p: "payload_in_message a_record"
    by (simp add: a_record_def record_eval)
  have pl: "payload a_record = [192, 168, 0, 1]"
    by (simp add: a_record_def record_eval)
  have res: "asA a_record = Inr ''192.168.0.1''"
    by (simp add: a_record_def asA_def record_eval deref_def snprintf_def printf_d_def
          to_string.simps digit_char_def)
  from asA_dotted_decimal [OF p]
  have "isl (asA a_record) \<longleftrightarrow> length (payload a_record) \<noteq> 4"
    by blast
  then show ?thesis
    using p res by (simp add: pl)
qed

lemma hex_group_props:
  "length (hex_group a b) = 4" "is_hex (hex_group a b)"
  "value_of 16 (hex_group a b) = 256 * unat a + unat b"
  "CHR '':'' \<notin> set (hex_group a b)"
proof -
  have lt: "unat a < 256" "unat b < 256"
    using unsigned_less [of a, where ?'a = nat] unsigned_less [of b, where ?'a = nat] by simp_all
  then have d: "unat a div 16 < 16" "unat a mod 16 < 16" "unat b div 16 < 16" "unat b mod 16 < 16"
    by simp_all
  have g: "hex_group a b = [digit_char (unat a div 16), digit_char (unat a mod 16),
                            digit_char (unat b div 16), digit_char (unat b mod 16)]"
    by (simp add: hex_group_def printf_02x_digits)
  show "length (hex_group a b) = 4"
    by (simp add: g)
  have hexes: "\<forall>c\<in>set (hex_group a b). c \<in> set ''0123456789abcdef''"
    unfolding g using d digit_char_hex by (simp del: set_simps add: list.set)
  then show "is_hex (hex_group a b)"
    unfolding is_hex_def list_all_iff by (simp only: g) simp
  have "value_of 16 (hex_group a b) =
          16 * (16 * (16 * (unat a div 16) + unat a mod 16) + unat b div 16) + unat b mod 16"
    by (simp add: g value_of_def digit_val_digit_char d)
  also have "\<dots> = 256 * (16 * (unat a div 16) + unat a mod 16) + (16 * (unat b div 16) + unat b mod 16)"
    by (simp only: distrib_left mult.assoc [symmetric] add.assoc)
  also have "\<dots> = 256 * unat a + unat b"
    by simp
  finally show "value_of 16 (hex_group a b) = 256 * unat a + unat b" .
  show "CHR '':'' \<notin> set (hex_group a b)"
  proof
    assume "CHR '':'' \<in> set (hex_group a b)"
    with hexes have "CHR '':'' \<in> set ''0123456789abcdef''" by blast
    then show False by simp
  qed
qed

lemma split_on_8:
  assumes "sep \<notin> set a" "sep \<notin> set b" "sep \<notin> set c" "sep \<notin> set d"
    "sep \<notin> set e" "sep \<notin> set f" "sep \<notin> set g" "sep \<notin> set h"
  shows "split_on sep (a @ [sep] @ b @ [sep] @ c @ [sep] @ d @ [sep] @ e @ [sep] @ f @ [sep] @
           g @ [sep] @ h) = [a, b, c, d, e, f, g, h]"
  using assms by (simp add: split_on_append split_on_no_sep)

lemma asAAAA_payload:
  assumes "payload_in_message r"
  shows "asAAAA r =
     (if length (payload r) \<noteq> 16 then Inl (runtime_error ''Invalid DNS A record receive'')
      else Inr (hex_group (payload r ! 0) (payload r ! 1) @ '':'' @
                hex_group (payload r ! 2) (payload r ! 3) @ '':'' @
                hex_group (payload r ! 4) (payload r ! 5) @ '':'' @
                hex_group (payload r ! 6) (payload r ! 7) @ '':'' @
                hex_group (payload r ! 8) (payload r ! 9) @ '':'' @
                hex_group (payload r ! 10) (payload r ! 11) @ '':'' @
                hex_group (payload r ! 12) (payload r ! 13) @ '':'' @
                hex_group (payload r ! 14) (payload r ! 15)))"
proof (cases "snd (rawData r) = 16")
  case False
  then show ?thesis
    using length_payload [OF assms] by (simp add: asAAAA_def split_def)
next
  case True
  let ?p = "payload r"
  let ?s = "hex_group (?p ! 0) (?p ! 1) @ '':'' @ hex_group (?p ! 2) (?p ! 3) @ '':'' @
            hex_group (?p ! 4) (?p ! 5) @ '':'' @ hex_group (?p ! 6) (?p ! 7) @ '':'' @
            hex_group (?p ! 8) (?p ! 9) @ '':'' @ hex_group (?p ! 10) (?p ! 11) @ '':'' @
            hex_group (?p ! 12) (?p ! 13) @ '':'' @ hex_group (?p ! 14) (?p ! 15)"
  have d0: "deref r (fst (rawData r)) = ?p ! 0"
    using deref_payload [OF assms, of 0] True by simp
  have d: "deref r (fst (rawData r) + int i) = ?p ! i" if "i < 16" for i
    using deref_payload [OF assms, of i] True that by simp
  have ds: "deref r (fst (rawData r) + 1) = ?p ! 1" "deref r (fst (rawData r) + 2) = ?p ! 2"
    "deref r (fst (rawData r) + 3) = ?p ! 3" "deref r (fst (rawData r) + 4) = ?p ! 4"
    "deref r (fst (rawData r) + 5) = ?p ! 5" "deref r (fst (rawData r) + 6) = ?p ! 6"
    "deref r (fst (rawData r) + 7) = ?p ! 7" "deref r (fst (rawData r) + 8) = ?p ! 8"
    "deref r (fst (rawData r) + 9) = ?p ! 9" "deref r (fst (rawData r) + 10) = ?p ! 10"
    "deref r (fst (rawData r) + 11) = ?p ! 11" "deref r (fst (rawData r) + 12) = ?p ! 12"
    "deref r (fst (rawData r) + 13) = ?p ! 13" "deref r (fst (rawData r) + 14) = ?p ! 14"
    "deref r (fst (rawData r) + 15) = ?p ! 15"
    using d [of 1] d [of 2] d [of 3] d [of 4] d [of 5] d [of 6] d [of 7] d [of 8] d [of 9]
      d [of 10] d [of 11] d [of 12] d [of 13] d [of 14] d [of 15]
    by simp_all
  have "length ?s = 39"
    by (simp add: hex_group_props(1))
  then have "snprintf 60 ?s = ?s"
    by (simp add: snprintf_def)
  then have "snprintf 60
     (printf_02x (?p ! 0) @ printf_02x (?p ! 1) @ '':'' @
      printf_02x (?p ! 2) @ printf_02x (?p ! 3) @ '':'' @
      printf_02x (?p ! 4) @ printf_02x (?p ! 5) @ '':'' @
      printf_02x (?p ! 6) @ printf_02x (?p ! 7) @ '':'' @
      printf_02x (?p ! 8) @ printf_02x (?p ! 9) @ '':'' @
      printf_02x (?p ! 10) @ printf_02x (?p ! 11) @ '':'' @
      printf_02x (?p ! 12) @ printf_02x (?p ! 13) @ '':'' @
      printf_02x (?p ! 14) @ printf_02x (?p ! 15)) = ?s"
    by (simp add: hex_group_def)
  then show ?thesis
    using True length_payload [OF assms] by (simp add: asAAAA_def split_def d0 ds)
qed

text \<open>
  Claim C5. For a record whose payload lies in the message, \<open>asAAAA\<close> fails exactly when the
  payload is not 16 octets long. On a payload of 16 octets the result has 39 characters and
  splits at the colons into eight groups of four hexadecimal digits each; group \<open>i\<close> has the
  value \<open>256 * payload[2i] + payload[2i + 1]\<close>. No group is empty, so no \<^verbatim>\<open>::\<close> occurs.
\<close>

theorem asAAAA_hex_groups:
  assumes "payload_in_message r"
  shows "(isl (asAAAA r) \<longleftrightarrow> length (payload r) \<noteq> 16)
       \<and> (length (payload r) = 16 \<longrightarrow>
            (\<exists>s. asAAAA r = Inr s \<and> length s = 39 \<and> length (split_on CHR '':'' s) = 8 \<and>
               (\<forall>i<8. length (split_on CHR '':'' s ! i) = 4 \<and>
                       is_hex (split_on CHR '':'' s ! i) \<and>
                       value_of 16 (split_on CHR '':'' s ! i) =
                         256 * unat (payload r ! (2 * i)) + unat (payload r ! (2 * i + 1)))))"
proof -
  have fails: "isl (asAAAA r) \<longleftrightarrow> length (payload r) \<noteq> 16"
    by (simp add: asAAAA_payload [OF assms])
  have ok: "\<exists>s. asAAAA r = Inr s \<and> length s = 39 \<and> length (split_on CHR '':'' s) = 8 \<and>
               (\<forall>i<8. length (split_on CHR '':'' s ! i) = 4 \<and>
                       is_hex (split_on CHR '':'' s ! i) \<and>
                       value_of 16 (split_on CHR '':'' s ! i) =
                         256 * unat (payload r ! (2 * i)) + unat (payload r ! (2 * i + 1)))"
    if sixteen: "length (payload r) = 16"
  proof -
    let ?p = "payload r"
    let ?s = "hex_group (?p ! 0) (?p ! 1) @ '':'' @ hex_group (?p ! 2) (?p ! 3) @ '':'' @
              hex_group (?p ! 4) (?p ! 5) @ '':'' @ hex_group (?p ! 6) (?p ! 7) @ '':'' @
              hex_group (?p ! 8) (?p ! 9) @ '':'' @ hex_group (?p ! 10) (?p ! 11) @ '':'' @
              hex_group (?p ! 12) (?p ! 13) @ '':'' @ hex_group (?p ! 14) (?p ! 15)"
    have res: "asAAAA r = Inr ?s"
      using sixteen by (simp add: asAAAA_payload [OF assms])
    have len: "length ?s = 39"
      by (simp add: hex_group_props(1))
    have groups: "split_on CHR '':'' ?s =
        [hex_group (?p ! 0) (?p ! 1), hex_group (?p ! 2) (?p ! 3), hex_group (?p ! 4) (?p ! 5),
         hex_group (?p ! 6) (?p ! 7), hex_group (?p ! 8) (?p ! 9), hex_group (?p ! 10) (?p ! 11),
         hex_group (?p ! 12) (?p ! 13), hex_group (?p ! 14) (?p ! 15)]"
      using split_on_8 [OF hex_group_props(4) hex_group_props(4) hex_group_props(4)
          hex_group_props(4) hex_group_props(4) hex_group_props(4) hex_group_props(4)
          hex_group_props(4), of "?p ! 0" "?p ! 1" "?p ! 2" "?p ! 3" "?p ! 4" "?p ! 5" "?p ! 6"
          "?p ! 7" "?p ! 8" "?p ! 9" "?p ! 10" "?p ! 11" "?p ! 12" "?p ! 13" "?p ! 14" "?p ! 15"]
      by simp
    have each: "\<forall>i<8. length (split_on CHR '':'' ?s ! i) = 4 \<and>
                       is_hex (split_on CHR '':'' ?s ! i) \<and>
                       value_of 16 (split_on CHR '':'' ?s ! i) =
                         256 * unat (?p ! (2 * i)) + unat (?p ! (2 * i + 1))"
      unfolding groups by (rule all_less_8) (simp_all add: hex_group_props)
    have "length (split_on CHR '':'' ?s) = 8"
      unfolding groups by simp
    with res len each show ?thesis by blast
  qed
  from fails ok show ?thesis by blast
qed

theorem asAAAA_hex_groups_witness:
  "payload_in_message aaaa_record \<and> length (payload aaaa_record) = 16 \<and>
   asAAAA aaaa_record = Inr ''2001:0db8:0000:0000:0000:0000:0000:0001''"
proof -
  have p: "payload_in_message aaaa_record"
    by (simp add: aaaa_record_def record_eval)
  have l: "length (payload aaaa_record) = 16"
    by (simp add: aaaa_record_def record_eval)
  have res: "asAAAA aaaa_record = Inr ''2001:0db8:0000:0000:0000:0000:0000:0001''"
    by (simp add: aaaa_record_def asAAAA_def record_eval deref_def snprintf_def printf_02x_def
          to_hex.simps digit_char_def)
  from asAAAA_hex_groups [OF p]
  have "isl (asAAAA aaaa_record) \<longleftrightarrow> length (payload aaaa_record) \<noteq> 16"
    by blast
  then show ?thesis
    using p l res by simp
qed

section \<open>The SRV decoder\<close>

lemma store_terminated:
  assumes "length n < length buf"
  shows "\<exists>tail. store buf (n @ c # rest) = n @ c # tail"
proof -
  obtain k where "length buf - length n = Suc k"
    using assms by (cases "length buf - length n") auto
  then show ?thesis
    using assms by (simp add: store_def)
qed

lemma find_char_store:
  assumes "length n < length buf" "c \<notin> set n"
  shows "find_char (store buf (n @ c # rest)) c = Some (length n)"
    and "take (length n) (store buf (n @ c # rest)) = n"
proof -
  from store_terminated [OF assms(1)] obtain tail
    where "store buf (n @ c # rest) = n @ c # tail" by blast
  then show "find_char (store buf (n @ c # rest)) c = Some (length n)"
    and "take (length n) (store buf (n @ c # rest)) = n"
    using assms(2) by (simp_all add: find_char_append)
qed

lemma asSRV_unfold:
  "asSRV lib r =
     (if fst (rawData r) < 0 \<or> fst (rawData r) + 6 > int (length (m_octets r))
      then Inl (runtime_error (''Incorrect result '' @ to_string (m_pos r) @
                  '' of SRV answer: Incorrect result size''))
      else if fst (dn_expand lib (m_octets r) (fst (rawData r) + 6) 8192) < 1
      then Inl (runtime_error (''Incorrect result '' @ to_string (m_pos r) @
                  '' of SRV answer: Invalid hostname format''))
      else (case find_char (store (replicate 8192 CHR ''@'')
                     (snd (dn_expand lib (m_octets r) (fst (rawData r) + 6) 8192))) NUL of
              None \<Rightarrow> Inl length_error
            | Some k \<Rightarrow>
                Inr (take k (store (replicate 8192 CHR ''@'')
                       (snd (dn_expand lib (m_octets r) (fst (rawData r) + 6) 8192))) @ '':'' @
                     to_string (256 * unat (deref r (fst (rawData r) + 4)) +
                                unat (deref r (fst (rawData r) + 5))) @ '',prio='' @
                     to_string (256 * unat (deref r (fst (rawData r))) +
                                unat (deref r (fst (rawData r) + 1))) @ '',weight='' @
                     to_string (256 * unat (deref r (fst (rawData r) + 2)) +
                                unat (deref r (fst (rawData r) + 3))))))"
  by (simp add: asSRV_def split_def Let_def m_start_def m_end_def memcpy_SrvHeader_def
        unat_ntohs_load16 cong: option.case_cong)

lemma asSRV_expanded:
  assumes "0 \<le> fst (rawData r)" "fst (rawData r) + 6 \<le> int (length (m_octets r))"
    and "1 \<le> fst (dn_expand lib (m_octets r) (fst (rawData r) + 6) 8192)"
    and "snd (dn_expand lib (m_octets r) (fst (rawData r) + 6) 8192) = name @ NUL # rest"
    and "NUL \<notin> set name" "length name < 8192"
  shows "asSRV lib r =
         Inr (name @ '':'' @
              to_string (256 * unat (deref r (fst (rawData r) + 4)) +
                         unat (deref r (fst (rawData r) + 5))) @ '',prio='' @
              to_string (256 * unat (deref r (fst (rawData r))) +
                         unat (deref r (fst (rawData r) + 1))) @ '',weight='' @
              to_string (256 * unat (deref r (fst (rawData r) + 2)) +
                         unat (deref r (fst (rawData r) + 3))))"
proof -
  have "find_char (store (replicate 8192 CHR ''@'') (name @ NUL # rest)) NUL = Some (length name)"
    and "take (length name) (store (replicate 8192 CHR ''@'') (name @ NUL # rest)) = name"
    using find_char_store [of name "replicate 8192 CHR ''@''" NUL rest] assms(5,6) by simp_all
  then show ?thesis
    using assms(1-4) by (simp add: asSRV_unfold)
qed

lemma asSRV_too_short:
  assumes "m_end r - fst (rawData r) < 6"
  shows "asSRV lib r =
     Inl (runtime_error (''Incorrect result '' @ to_string (m_pos r) @
            '' of SRV answer: Incorrect result size''))"
  using assms by (simp add: asSRV_unfold m_end_def)

lemma asSRV_fails_iff:
  assumes "0 \<le> fst (rawData r)" "fst (rawData r) + 6 \<le> int (length (m_octets r))"
  shows "(\<exists>m. asSRV lib r = Inl (runtime_error m)) \<longleftrightarrow>
           fst (dn_expand lib (m_octets r) (fst (rawData r) + 6) 8192) < 1"
  using assms by (auto simp: asSRV_unfold split: option.splits)

text \<open>
  Claim C1, as amended. Let the payload of the record lie in the message. \<open>asSRV\<close> fails with the
  \<^verbatim>\<open>runtime_error\<close> \<^verbatim>\<open>Incorrect result size\<close> when fewer than 6 octets lie between the start of the
  payload and the end of the message. On a payload of at least 6 octets it fails exactly when
  \<^verbatim>\<open>dn_expand\<close> returns less than 1 for the name after the header, expanded against the whole
  message; otherwise, when \<^verbatim>\<open>dn_expand\<close> has stored a NUL-terminated name in the buffer, the
  result is \<^verbatim>\<open><name>:<port>,prio=<priority>,weight=<weight>\<close>, where each number is the
  big-endian value of its two payload octets, on a host of either byte order. Nothing is said
  of a payload of fewer than 6 octets inside a longer message.
\<close>

theorem asSRV_header_and_name:
  assumes "payload_in_message r"
  shows "(m_end r - fst (rawData r) < 6 \<longrightarrow>
            asSRV lib r =
              Inl (runtime_error (''Incorrect result '' @ to_string (m_pos r) @
                     '' of SRV answer: Incorrect result size'')))
       \<and> (6 \<le> length (payload r) \<longrightarrow>
            ((\<exists>m. asSRV lib r = Inl (runtime_error m)) \<longleftrightarrow>
               fst (dn_expand lib (m_octets r) (fst (rawData r) + 6) 8192) < 1))
       \<and> (6 \<le> length (payload r) \<and>
           1 \<le> fst (dn_expand lib (m_octets r) (fst (rawData r) + 6) 8192) \<and>
           snd (dn_expand lib (m_octets r) (fst (rawData r) + 6) 8192) = name @ NUL # rest \<and>
           NUL \<notin> set name \<and> length name < 8192 \<longrightarrow>
           asSRV lib r =
             Inr (name @ '':'' @
                  to_string (256 * unat (payload r ! 4) + unat (payload r ! 5)) @ '',prio='' @
                  to_string (256 * unat (payload r ! 0) + unat (payload r ! 1)) @ '',weight='' @
                  to_string (256 * unat (payload r ! 2) + unat (payload r ! 3))))"
proof -
  have short: "m_end r - fst (rawData r) < 6 \<longrightarrow>
            asSRV lib r =
              Inl (runtime_error (''Incorrect result '' @ to_string (m_pos r) @
                     '' of SRV answer: Incorrect result size''))"
    using asSRV_too_short by blast
  have bounds: "0 \<le> fst (rawData r) \<and> fst (rawData r) + 6 \<le> int (length (m_octets r))"
    if "6 \<le> length (payload r)"
    using that assms length_payload [OF assms]
    by (simp add: payload_in_message_def m_start_def m_end_def)
  have fails: "(\<exists>m. asSRV lib r = Inl (runtime_error m)) \<longleftrightarrow>
               fst (dn_expand lib (m_octets r) (fst (rawData r) + 6) 8192) < 1"
    if "6 \<le> length (payload r)"
    using bounds [OF that] by (intro asSRV_fails_iff) simp_all
  have ok: "asSRV lib r =
             Inr (name @ '':'' @
                  to_string (256 * unat (payload r ! 4) + unat (payload r ! 5)) @ '',prio='' @
                  to_string (256 * unat (payload r ! 0) + unat (payload r ! 1)) @ '',weight='' @
                  to_string (256 * unat (payload r ! 2) + unat (payload r ! 3)))"
    if six: "6 \<le> length (payload r)"
      and e: "1 \<le> fst (dn_expand lib (m_octets r) (fst (rawData r) + 6) 8192)"
        "snd (dn_expand lib (m_octets r) (fst (rawData r) + 6) 8192) = name @ NUL # rest"
        "NUL \<notin> set name" "length name < 8192"
  proof -
    have len: "6 \<le> snd (rawData r)"
      using six length_payload [OF assms] by simp
    have d: "deref r (fst (rawData r)) = payload r ! 0"
      "deref r (fst (rawData r) + 1) = payload r ! 1"
      "deref r (fst (rawData r) + 2) = payload r ! 2"
      "deref r (fst (rawData r) + 3) = payload r ! 3"
      "deref r (fst (rawData r) + 4) = payload r ! 4"
      "deref r (fst (rawData r) + 5) = payload r ! 5"
      using deref_payload [OF assms, of 0] deref_payload [OF assms, of 1]
        deref_payload [OF assms, of 2] deref_payload [OF assms, of 3]
        deref_payload [OF assms, of 4] deref_payload [OF assms, of 5] len
      by simp_all
    from bounds [OF six] have b: "0 \<le> fst (rawData r)"
      "fst (rawData r) + 6 \<le> int (length (m_octets r))" by simp_all
    from asSRV_expanded [OF b e] show ?thesis
      by (simp only: d)
  qed
  from short fails ok show ?thesis by blast
qed

lemma expand_srv_record:
  "ref_dn_expand [0, 1, 0, 2, 0, 0x50,
                   3, 0x73, 0x76, 0x63, 7, 0x65, 0x78, 0x61, 0x6D, 0x70, 0x6C, 0x65,
                   3, 0x63, 0x6F, 0x6D, 0] 6 8192 = (17, ''svc.example.com'' @ [CHR 0x00])"
  by code_simp

lemma expand_srv_bad_name:
  "ref_dn_expand [0, 1, 0, 2, 0, 0x50, 5, 0x61] 6 8192 = (- 1, [])"
  by code_simp

lemma expand_srv_short:
  "ref_dn_expand [0, 1, 0, 2, 0, 0x50, 0] 6 8192 = (1, [CHR 0x00, CHR 0x00])"
  by code_simp

theorem asSRV_header_and_name_witness:
  "payload_in_message srv_record \<and> 6 \<le> length (payload srv_record) \<and>
   dn_expand (answering empty_answer) (m_octets srv_record) (fst (rawData srv_record) + 6) 8192 =
     (17, ''svc.example.com'' @ NUL # []) \<and>
   asSRV (answering empty_answer) srv_record = Inr ''svc.example.com:80,prio=1,weight=2''"
proof -
  let ?lib = "answering empty_answer"
  have p: "payload_in_message srv_record"
    by (simp add: srv_record_def record_eval)
  have pl: "payload srv_record =
      [0, 1, 0, 2, 0, 0x50, 3, 0x73, 0x76, 0x63, 7, 0x65, 0x78, 0x61, 0x6D, 0x70, 0x6C, 0x65,
       3, 0x63, 0x6F, 0x6D, 0]"
    by (simp add: srv_record_def record_eval)
  have six: "6 \<le> length (payload srv_record)"
    by (simp add: pl)
  have d: "fst (rawData srv_record) = 0"
    by (simp add: srv_record_def record_eval)
  have e: "dn_expand ?lib (m_octets srv_record) (fst (rawData srv_record) + 6) 8192 =
      (17, ''svc.example.com'' @ NUL # [])"
    by (simp add: d answering_def reference_lib_def NUL_def) (simp add: srv_record_def expand_srv_record)
  have n: "NUL \<notin> set ''svc.example.com''"
    by (simp add: NUL_def)
  from asSRV_header_and_name [OF p, of ?lib "''svc.example.com''" "[]"] six e n
  have "asSRV ?lib srv_record =
         Inr (''svc.example.com'' @ '':'' @
              to_string (256 * unat (payload srv_record ! 4) + unat (payload srv_record ! 5)) @
              '',prio='' @
              to_string (256 * unat (payload srv_record ! 0) + unat (payload srv_record ! 1)) @
              '',weight='' @
              to_string (256 * unat (payload srv_record ! 2) + unat (payload srv_record ! 3)))"
    by simp
  then have "asSRV ?lib srv_record = Inr ''svc.example.com:80,prio=1,weight=2''"
    by (simp add: pl to_string.simps digit_char_def)
  with p six e show ?thesis
    by (intro conjI)
qed

text \<open>
  Claim C1 as stated fails in both directions. The payload of \<open>srv_bad_name\<close> has 8 octets, all
  inside the message, and decoding fails all the same, because the name after the header
  cannot be expanded. The payload of \<open>srv_short\<close> has 2 octets, and decoding does not fail: the
  length of the payload is never looked at, and the header and the name are read from the
  octets that follow the payload in the message.
\<close>

theorem asSRV_failure_is_not_short_payload:
  "payload_in_message srv_bad_name \<and> \<not> length (payload srv_bad_name) < 6 \<and>
   asSRV (answering empty_answer) srv_bad_name =
     Inl (runtime_error ''Incorrect result 0 of SRV answer: Invalid hostname format'') \<and>
   payload_in_message srv_short \<and> length (payload srv_short) < 6 \<and>
   asSRV (answering empty_answer) srv_short = Inr '':80,prio=1,weight=2''"
proof -
  let ?lib = "answering empty_answer"
  have "dn_expand ?lib (m_octets srv_bad_name) (fst (rawData srv_bad_name) + 6) 8192 = (- 1, [])"
    by (simp add: answering_def reference_lib_def srv_bad_name_def record_eval expand_srv_bad_name)
  then have bad: "asSRV ?lib srv_bad_name =
     Inl (runtime_error ''Incorrect result 0 of SRV answer: Invalid hostname format'')"
    by (simp add: asSRV_unfold) (simp add: srv_bad_name_def record_eval to_string.simps digit_char_def)
  have d: "fst (rawData srv_short) = 0" and l: "length (m_octets srv_short) = 7"
    by (simp_all add: srv_short_def record_eval)
  have e: "dn_expand ?lib (m_octets srv_short) 6 8192 = (1, [NUL, NUL])"
    by (simp add: answering_def reference_lib_def NUL_def) (simp add: srv_short_def expand_srv_short)
  have "asSRV ?lib srv_short =
         Inr ([] @ '':'' @
              to_string (256 * unat (deref srv_short (fst (rawData srv_short) + 4)) +
                         unat (deref srv_short (fst (rawData srv_short) + 5))) @ '',prio='' @
              to_string (256 * unat (deref srv_short (fst (rawData srv_short))) +
                         unat (deref srv_short (fst (rawData srv_short) + 1))) @ '',weight='' @
              to_string (256 * unat (deref srv_short (fst (rawData srv_short) + 2)) +
                         unat (deref srv_short (fst (rawData srv_short) + 3))))"
    by (rule asSRV_expanded [where rest = "[NUL]"]) (simp_all add: d l e)
  then have short: "asSRV ?lib srv_short = Inr '':80,prio=1,weight=2''"
    by (simp add: d deref_def) (simp add: srv_short_def to_string.simps digit_char_def)
  have "payload_in_message srv_bad_name" "\<not> length (payload srv_bad_name) < 6"
    "payload_in_message srv_short" "length (payload srv_short) < 6"
    by (simp_all add: srv_bad_name_def srv_short_def record_eval)
  with bad short show ?thesis
    by (intro conjI)
qed

section \<open>The whole lookup\<close>

lemma asSRV_error_names_pos:
  assumes "asSRV lib r = Inl (runtime_error m)"
  shows "\<exists>cause. m = ''Incorrect result '' @ to_string (m_pos r) @ '' of SRV answer: '' @ cause"
proof -
  from assms have
    "m = ''Incorrect result '' @ to_string (m_pos r) @ '' of SRV answer: '' @ ''Incorrect result size'' \<or>
     m = ''Incorrect result '' @ to_string (m_pos r) @ '' of SRV answer: '' @ ''Invalid hostname format''"
    by (auto simp: asSRV_unfold split: if_splits option.splits)
  then show ?thesis by blast
qed

lemma DNSReponse_ctor_records:
  assumes "ns_initparse lib raw = (0, answer)" "ns_msg_count answer ns_s_an = n"
  shows "DNSReponse_ctor lib search raw =
           (case emplace_records lib n 0 (handle_before lib answer 0) [] of
              Inl e \<Rightarrow> Inl e
            | Inr (answer', records) \<Rightarrow>
                Inr \<lparr> m_raw_data = raw, m_records = records, m_answer = answer' \<rparr>)"
proof (cases "n = 0")
  case True
  have "emplace_records lib 0 0 (handle_before lib answer 0) [] = Inr (answer, [])"
    by (subst emplace_records.simps) simp
  then show ?thesis
    using assms True by (simp add: DNSReponse_ctor_def)
next
  case False
  then show ?thesis
    using assms by (simp add: DNSReponse_ctor_def)
qed

lemma lookup_invalid_answer:
  assumes init: "fst (res_ninit lib) = 0"
    and raw: "snd (Lookup_answer lib name cls ty) = Inr raw"
    and parse: "fst (ns_initparse lib raw) \<noteq> 0"
  shows "lookup lib name cls ty =
      Failed (runtime_error (''Invalid DNS answer for '' @ [dquote] @ name @ [dquote]))"
  using assms by (simp add: lookup_unfold Lookup_def DNSReponse_ctor_def split_def)

lemma lookup_extraction_fails:
  assumes init: "fst (res_ninit lib) = 0"
    and raw: "snd (Lookup_answer lib name cls ty) = Inr raw"
    and parse: "ns_initparse lib raw = (0, answer)"
    and n: "ns_msg_count answer ns_s_an = n"
    and k: "k < n" "\<not> extracted lib answer k" "\<forall>j<k. extracted lib answer j"
  shows "lookup lib name cls ty =
      Failed (runtime_error (''Invalid record '' @ to_string k @ '' of DNS answer: '' @
                strerror lib (errno_at lib answer k)))"
proof -
  have "emplace_records lib n 0 (handle_before lib answer 0) [] =
      Inl (runtime_error (''Invalid record '' @ to_string k @ '' of DNS answer: '' @
              strerror lib (errno_at lib answer k)))"
    using k by (intro emplace_records_fails) auto
  then show ?thesis
    using init raw by (simp add: lookup_unfold Lookup_def DNSReponse_ctor_records [OF parse n])
qed

lemma Lookup_records:
  assumes raw: "snd (Lookup_answer lib name cls ty) = Inr raw"
    and parse: "ns_initparse lib raw = (0, answer)"
    and n: "ns_msg_count answer ns_s_an = n"
    and all: "\<forall>j<n. extracted lib answer j"
  shows "Lookup lib name cls ty =
      Inr \<lparr> m_raw_data = raw, m_records = map (record_at lib answer) [0..<n],
             m_answer = handle_before lib answer n \<rparr>"
proof -
  have "emplace_records lib n 0 (handle_before lib answer 0) [] =
      Inr (handle_before lib answer (max 0 n), [] @ map (record_at lib answer) [0..<n])"
    using all by (intro emplace_records_all) auto
  then show ?thesis
    using raw by (simp add: Lookup_def DNSReponse_ctor_records [OF parse n])
qed

lemma lookup_decoding_fails:
  assumes init: "fst (res_ninit lib) = 0"
    and raw: "snd (Lookup_answer lib name cls ty) = Inr raw"
    and parse: "ns_initparse lib raw = (0, answer)"
    and n: "ns_msg_count answer ns_s_an = n"
    and all: "\<forall>j<n. extracted lib answer j"
    and k: "k < n" "read lib (record_at lib answer k) ty = Inl e"
      "\<forall>j<k. \<not> isl (read lib (record_at lib answer j) ty)"
  shows "lookup lib name cls ty = Failed e"
proof -
  let ?rs = "map (record_at lib answer) [0..<n]"
  have "\<exists>result'. read_records lib ty ?rs [] = (result', Some e)"
  proof (rule read_records_first_error [where k = k])
    show "k < length ?rs" using k(1) by simp
    show "read lib (?rs ! k) ty = Inl e" using k(1,2) by simp
    show "\<forall>j<k. \<not> isl (read lib (?rs ! j) ty)" using k(1,3) by simp
  qed
  then obtain result' where "read_records lib ty ?rs [] = (result', Some e)" by blast
  then show ?thesis
    using init Lookup_records [OF raw parse n all] by (simp add: lookup_unfold)
qed

lemma lookup_succeeded:
  assumes init: "fst (res_ninit lib) = 0"
    and raw: "snd (Lookup_answer lib name cls ty) = Inr raw"
    and parse: "ns_initparse lib raw = (0, answer)"
    and n: "ns_msg_count answer ns_s_an = n"
    and ok: "lookup lib name cls ty = Succeeded xs"
  shows "length xs = n \<and>
      (\<forall>i<n. extracted lib answer i \<and> read lib (record_at lib answer i) ty = Inr (xs ! i))"
proof -
  have all: "\<forall>j<n. extracted lib answer j"
  proof (rule ccontr)
    assume "\<not> (\<forall>j<n. extracted lib answer j)"
    then have "\<exists>k. k < n \<and> \<not> extracted lib answer k" by blast
    then obtain k where k: "k < n \<and> \<not> extracted lib answer k"
      and least: "\<forall>j<k. \<not> (j < n \<and> \<not> extracted lib answer j)"
      using exists_least_iff [of "\<lambda>k. k < n \<and> \<not> extracted lib answer k"] by blast
    from k least have "\<forall>j<k. extracted lib answer j"
      by (meson less_trans)
    with k lookup_extraction_fails [OF init raw parse n, of k] ok show False by simp
  qed
  let ?rs = "map (record_at lib answer) [0..<n]"
  obtain result e where rr: "read_records lib ty ?rs [] = (result, e)"
    by (cases "read_records lib ty ?rs []") auto
  have "e = None \<and> result = xs"
    using ok init Lookup_records [OF raw parse n all] rr by (cases e) (simp_all add: lookup_unfold)
  with rr have "read_records lib ty ?rs [] = (xs, None)" by simp
  from read_records_result [OF this] obtain ss where ss: "xs = [] @ ss" "length ss = length ?rs"
    "\<forall>i<length ?rs. read lib (?rs ! i) ty = Inr (ss ! i)" by blast
  then have "length xs = n" by simp
  moreover have "\<forall>i<n. read lib (record_at lib answer i) ty = Inr (xs ! i)"
    using ss by simp
  ultimately show ?thesis using all by blast
qed

text \<open>
  Claim C2, as amended. Take any raw response, let \<open>rc\<close> and \<open>answer\<close> be what \<^verbatim>\<open>ns_initparse\<close>
  returns for it and \<open>n\<close> the number of answer records that the handle declares.
  \<^item> If \<open>rc\<close> is not 0, the message as a whole was rejected, and the lookup fails with
    \<^verbatim>\<open>Invalid DNS answer for "<name>"\<close>.
  \<^item> If the extraction of a record fails, first at index \<open>k\<close>, the lookup fails with
    \<^verbatim>\<open>Invalid record <k> of DNS answer: <strerror(errno)>\<close>.
  \<^item> If every record is extracted and the decoding of a record fails, first at index \<open>k\<close>, the
    lookup fails with the error of that decoder, and the error of the SRV decoder names \<open>k\<close>.
  \<^item> A lookup that succeeds delivers exactly \<open>n\<close> strings, the decodings of the \<open>n\<close> records in
    order. So the caller gets an error or all \<open>n\<close> strings, never a shorter list.
\<close>

theorem lookup_all_or_nothing:
  assumes init: "fst (res_ninit lib) = 0"
    and raw: "snd (Lookup_answer lib name cls ty) = Inr raw"
    and parse: "ns_initparse lib raw = (rc, answer)"
    and n: "ns_msg_count answer ns_s_an = n"
  shows "(rc \<noteq> 0 \<longrightarrow>
            lookup lib name cls ty =
              Failed (runtime_error (''Invalid DNS answer for '' @ [dquote] @ name @ [dquote])))
       \<and> (rc = 0 \<longrightarrow>
            (\<forall>k<n. \<not> extracted lib answer k \<and> (\<forall>j<k. extracted lib answer j) \<longrightarrow>
               lookup lib name cls ty =
                 Failed (runtime_error (''Invalid record '' @ to_string k @ '' of DNS answer: '' @
                           strerror lib (errno_at lib answer k)))))
       \<and> (rc = 0 \<longrightarrow>
            (\<forall>k<n. \<forall>e. (\<forall>j<n. extracted lib answer j) \<and>
               read lib (record_at lib answer k) ty = Inl e \<and>
               (\<forall>j<k. \<not> isl (read lib (record_at lib answer j) ty)) \<longrightarrow>
               lookup lib name cls ty = Failed e))
       \<and> (\<forall>k m. asSRV lib (record_at lib answer k) = Inl (runtime_error m) \<longrightarrow>
               (\<exists>cause. m = ''Incorrect result '' @ to_string k @ '' of SRV answer: '' @ cause))
       \<and> (\<forall>xs. lookup lib name cls ty = Succeeded xs \<longrightarrow>
               rc = 0 \<and> length xs = n \<and>
               (\<forall>i<n. extracted lib answer i \<and> read lib (record_at lib answer i) ty = Inr (xs ! i)))
       \<and> ((\<exists>e. lookup lib name cls ty = Failed e) \<or>
           (\<exists>xs. lookup lib name cls ty = Succeeded xs \<and> length xs = n))"
proof -
  have rejected: "lookup lib name cls ty =
      Failed (runtime_error (''Invalid DNS answer for '' @ [dquote] @ name @ [dquote]))"
    if "rc \<noteq> 0"
    using that parse by (intro lookup_invalid_answer [OF init raw]) simp
  have extraction: "lookup lib name cls ty =
      Failed (runtime_error (''Invalid record '' @ to_string k @ '' of DNS answer: '' @
                strerror lib (errno_at lib answer k)))"
    if "rc = 0" "k < n" "\<not> extracted lib answer k" "\<forall>j<k. extracted lib answer j" for k
    using that parse by (intro lookup_extraction_fails [OF init raw _ n]) simp_all
  have decoding: "lookup lib name cls ty = Failed e"
    if "rc = 0" "k < n" "\<forall>j<n. extracted lib answer j"
      "read lib (record_at lib answer k) ty = Inl e"
      "\<forall>j<k. \<not> isl (read lib (record_at lib answer j) ty)" for k e
    using that parse by (intro lookup_decoding_fails [OF init raw _ n, where k = k]) simp_all
  have srv: "\<exists>cause. m = ''Incorrect result '' @ to_string k @ '' of SRV answer: '' @ cause"
    if "asSRV lib (record_at lib answer k) = Inl (runtime_error m)" for k m
    using asSRV_error_names_pos [OF that] by (simp add: record_at_def)
  have success: "rc = 0 \<and> length xs = n \<and>
      (\<forall>i<n. extracted lib answer i \<and> read lib (record_at lib answer i) ty = Inr (xs ! i))"
    if ok: "lookup lib name cls ty = Succeeded xs" for xs
  proof -
    have rc: "rc = 0"
      using rejected ok by (cases "rc = 0") simp_all
    with parse have "ns_initparse lib raw = (0, answer)" by simp
    from lookup_succeeded [OF init raw this n ok] rc show ?thesis by simp
  qed
  have either: "(\<exists>e. lookup lib name cls ty = Failed e) \<or>
           (\<exists>xs. lookup lib name cls ty = Succeeded xs \<and> length xs = n)"
  proof (cases "lookup lib name cls ty")
    case (Succeeded xs)
    with success [of xs] show ?thesis by simp
  next
    case (Failed e)
    then show ?thesis by simp
  qed
  from rejected extraction decoding srv success either show ?thesis
    by (intro conjI allI impI) blast+
qed

lemma skip1: "ref_name_skip bad_txt_answer 12 = Some 13"
  by (simp add: ref_name_skip.simps bad_txt_answer_def)

lemma skiprr1: "ref_skiprr bad_txt_answer 12 (Suc 0) (Suc 0) = Some 25"
  by (simp add: skip1 ns_s_qd_def get16_def) (simp add: bad_txt_answer_def)

lemma sections1: "ref_sections bad_txt_answer [0, 1, 0, 0] 0 12 = Some ([0, 12, 0, 0], 25)"
  by (simp add: skiprr1 del: ref_skiprr.simps)

lemma init1:
  "ref_ns_initparse bad_txt_answer =
     (0, \<lparr> msg_octets = bad_txt_answer, msg_id = 0x1234, msg_flags = 0x8180,
            msg_counts = [0, 1, 0, 0], msg_sections = [0, 12, 0, 0],
            msg_sect = 4, msg_rrnum = - 1, msg_ptr = 0 \<rparr>)"
proof -
  have c: "map (\<lambda>i. get16 bad_txt_answer (4 + 2 * i)) [0..<4] = [0, 1, 0, 0]"
    by (simp add: upt_rec get16_def bad_txt_answer_def)
  have l: "length bad_txt_answer = 25"
    by (simp add: bad_txt_answer_def)
  have i: "get16 bad_txt_answer 0 = 0x1234" "get16 bad_txt_answer 2 = 0x8180"
    by (simp_all add: get16_def bad_txt_answer_def)
  show ?thesis
    using sections1 by (simp add: ref_ns_initparse_def Let_def c l i ns_s_max_def)
qed

lemma unpack1: "ref_name_unpack bad_txt_answer 12 12 0 0 None = Some (1, [])"
  by (simp add: ref_name_unpack.simps bad_txt_answer_def)

lemma expand1: "ref_dn_expand bad_txt_answer 12 1025 = (1, [NUL, NUL])"
proof -
  have l: "length bad_txt_answer = 25"
    by (simp add: bad_txt_answer_def)
  show ?thesis
    by (simp add: ref_dn_expand_def l unpack1 ref_name_ntop_def)
qed

lemma parse1:
  "ref_parse_rr bad_txt_answer (Suc 0) 12 =
     Some (\<lparr> rr_name = [], rr_type = 16, rr_class = 1, rr_ttl = 60, rdlength = 2, rdata = 23 \<rparr>, 25)"
proof -
  have l: "length bad_txt_answer = 25"
    by (simp add: bad_txt_answer_def)
  have g: "get16 bad_txt_answer 13 = 16" "get16 bad_txt_answer 15 = 1"
    "get16 bad_txt_answer 17 = 0" "get16 bad_txt_answer 19 = 60" "get16 bad_txt_answer 21 = 2"
    by (simp_all add: get16_def bad_txt_answer_def)
  have e: "ref_dn_expand bad_txt_answer (int 12) 1025 = (1, [NUL, NUL])"
    using expand1 by simp
  show ?thesis
    unfolding ref_parse_rr_def e
    by (simp add: Let_def l g ns_s_qd_def c_str_def)
qed

lemma parserr1:
  "ref_ns_parserr (snd (ref_ns_initparse bad_txt_answer)) ns_s_an 0 =
     (0, \<lparr> msg_octets = bad_txt_answer, msg_id = 0x1234, msg_flags = 0x8180,
            msg_counts = [0, 1, 0, 0], msg_sections = [0, 12, 0, 0],
            msg_sect = 1, msg_rrnum = 1, msg_ptr = 25 \<rparr>,
      \<lparr> rr_name = [], rr_type = 16, rr_class = 1, rr_ttl = 60, rdlength = 2, rdata = 23 \<rparr>, 0)"
proof -
  have l: "length bad_txt_answer = 25"
    by (simp add: bad_txt_answer_def)
  show ?thesis
    by (simp add: init1 ref_ns_parserr_def Let_def ns_s_an_def ns_s_max_def ref_setsection_def
          l parse1)
qed

lemma skip2: "ref_name_skip bad_owner_answer 12 = Some 14"
  by (simp add: ref_name_skip.simps bad_owner_answer_def)

lemma skiprr2: "ref_skiprr bad_owner_answer 12 (Suc 0) (Suc 0) = Some 24"
  by (simp add: skip2 ns_s_qd_def get16_def) (simp add: bad_owner_answer_def)

lemma sections2: "ref_sections bad_owner_answer [0, 1, 0, 0] 0 12 = Some ([0, 12, 0, 0], 24)"
  by (simp add: skiprr2 del: ref_skiprr.simps)

lemma init2:
  "ref_ns_initparse bad_owner_answer =
     (0, \<lparr> msg_octets = bad_owner_answer, msg_id = 0x1234, msg_flags = 0x8180,
            msg_counts = [0, 1, 0, 0], msg_sections = [0, 12, 0, 0],
            msg_sect = 4, msg_rrnum = - 1, msg_ptr = 0 \<rparr>)"
proof -
  have c: "map (\<lambda>i. get16 bad_owner_answer (4 + 2 * i)) [0..<4] = [0, 1, 0, 0]"
    by (simp add: upt_rec get16_def bad_owner_answer_def)
  have l: "length bad_owner_answer = 24"
    by (simp add: bad_owner_answer_def)
  have i: "get16 bad_owner_answer 0 = 0x1234" "get16 bad_owner_answer 2 = 0x8180"
    by (simp_all add: get16_def bad_owner_answer_def)
  show ?thesis
    using sections2 by (simp add: ref_ns_initparse_def Let_def c l i ns_s_max_def)
qed

lemma unpack2: "ref_name_unpack bad_owner_answer 12 12 0 0 None = None"
  by (simp add: ref_name_unpack.simps bad_owner_answer_def)

lemma parse2: "ref_parse_rr bad_owner_answer (Suc 0) 12 = None"
proof -
  have l: "length bad_owner_answer = 24"
    by (simp add: bad_owner_answer_def)
  have e: "ref_dn_expand bad_owner_answer (int 12) 1025 = (- 1, [])"
    by (simp add: ref_dn_expand_def l unpack2)
  show ?thesis
    unfolding ref_parse_rr_def e by simp
qed

lemma parserr2:
  "fst (ref_ns_parserr (snd (ref_ns_initparse bad_owner_answer)) ns_s_an 0) = - 1"
  "snd (snd (snd (ref_ns_parserr (snd (ref_ns_initparse bad_owner_answer)) ns_s_an 0))) = EMSGSIZE"
proof -
  have l: "length bad_owner_answer = 24"
    by (simp add: bad_owner_answer_def)
  show "fst (ref_ns_parserr (snd (ref_ns_initparse bad_owner_answer)) ns_s_an 0) = - 1"
    and "snd (snd (snd (ref_ns_parserr (snd (ref_ns_initparse bad_owner_answer)) ns_s_an 0))) = EMSGSIZE"
    by (simp_all add: init2 ref_ns_parserr_def Let_def ns_s_an_def ns_s_max_def ref_setsection_def
          l parse2)
qed

lemma skip4: "ref_name_skip truncated_answer 12 = Some 13"
  by (simp add: ref_name_skip.simps truncated_answer_def)

lemma skiprr4: "ref_skiprr truncated_answer 12 (Suc 0) (Suc 0) = None"
  by (simp add: skip4 ns_s_qd_def) (simp add: truncated_answer_def)

lemma sections4: "ref_sections truncated_answer [0, 1, 0, 0] 0 12 = None"
  by (simp add: skiprr4 del: ref_skiprr.simps)

lemma init4: "fst (ref_ns_initparse truncated_answer) = - 1"
proof -
  have c: "map (\<lambda>i. get16 truncated_answer (4 + 2 * i)) [0..<4] = [0, 1, 0, 0]"
    by (simp add: upt_rec get16_def truncated_answer_def)
  have l: "length truncated_answer = 20"
    by (simp add: truncated_answer_def)
  show ?thesis
    using sections4 by (simp add: ref_ns_initparse_def Let_def c l)
qed

lemma length3: "length two_txt_answer = 40"
  by (simp add: two_txt_answer_def)

lemma skip3: "ref_name_skip two_txt_answer 12 = Some 13" "ref_name_skip two_txt_answer 27 = Some 28"
  by (simp_all add: ref_name_skip.simps two_txt_answer_def)

lemma get3:
  "get16 two_txt_answer 0 = 0x1234" "get16 two_txt_answer 2 = 0x8180"
  "get16 two_txt_answer 13 = 16" "get16 two_txt_answer 15 = 1"
  "get16 two_txt_answer 17 = 0" "get16 two_txt_answer 19 = 60" "get16 two_txt_answer 21 = 4"
  "get16 two_txt_answer 28 = 16" "get16 two_txt_answer 30 = 1"
  "get16 two_txt_answer 32 = 0" "get16 two_txt_answer 34 = 60" "get16 two_txt_answer 36 = 2"
  by (simp_all add: get16_def two_txt_answer_def)

lemma skiprr3: "ref_skiprr two_txt_answer 12 (Suc 0) 2 = Some 40"
  by (simp add: numeral_2_eq_2 skip3 get3 length3 ns_s_qd_def)

lemma sections3: "ref_sections two_txt_answer [0, 2, 0, 0] 0 12 = Some ([0, 12, 0, 0], 40)"
  by (simp add: skiprr3 del: ref_skiprr.simps)

lemma init3:
  "ref_ns_initparse two_txt_answer =
     (0, \<lparr> msg_octets = two_txt_answer, msg_id = 0x1234, msg_flags = 0x8180,
            msg_counts = [0, 2, 0, 0], msg_sections = [0, 12, 0, 0],
            msg_sect = 4, msg_rrnum = - 1, msg_ptr = 0 \<rparr>)"
proof -
  have c: "map (\<lambda>i. get16 two_txt_answer (4 + 2 * i)) [0..<4] = [0, 2, 0, 0]"
    by (simp add: upt_rec get16_def two_txt_answer_def)
  show ?thesis
    using sections3 by (simp add: ref_ns_initparse_def Let_def c length3 get3 ns_s_max_def)
qed

lemma unpack3:
  "ref_name_unpack two_txt_answer 12 12 0 0 None = Some (1, [])"
  "ref_name_unpack two_txt_answer 27 27 0 0 None = Some (1, [])"
  by (simp_all add: ref_name_unpack.simps two_txt_answer_def)

lemma expand3:
  "ref_dn_expand two_txt_answer (int 12) 1025 = (1, [NUL, NUL])"
  "ref_dn_expand two_txt_answer (int 27) 1025 = (1, [NUL, NUL])"
  by (simp_all add: ref_dn_expand_def length3 unpack3 ref_name_ntop_def)

lemma parse3:
  "ref_parse_rr two_txt_answer (Suc 0) 12 =
     Some (\<lparr> rr_name = [], rr_type = 16, rr_class = 1, rr_ttl = 60, rdlength = 4, rdata = 23 \<rparr>, 27)"
  "ref_parse_rr two_txt_answer (Suc 0) 27 =
     Some (\<lparr> rr_name = [], rr_type = 16, rr_class = 1, rr_ttl = 60, rdlength = 2, rdata = 38 \<rparr>, 40)"
  unfolding ref_parse_rr_def expand3
  by (simp_all add: Let_def length3 get3 ns_s_qd_def c_str_def)

lemma parserr3a:
  "ref_ns_parserr (snd (ref_ns_initparse two_txt_answer)) ns_s_an 0 =
     (0, \<lparr> msg_octets = two_txt_answer, msg_id = 0x1234, msg_flags = 0x8180,
            msg_counts = [0, 2, 0, 0], msg_sections = [0, 12, 0, 0],
            msg_sect = 1, msg_rrnum = 1, msg_ptr = 27 \<rparr>,
      \<lparr> rr_name = [], rr_type = 16, rr_class = 1, rr_ttl = 60, rdlength = 4, rdata = 23 \<rparr>, 0)"
  by (simp add: init3 ref_ns_parserr_def Let_def ns_s_an_def ns_s_max_def ref_setsection_def
        length3 parse3)

lemma parserr3b:
  "ref_ns_parserr
     \<lparr> msg_octets = two_txt_answer, msg_id = 0x1234, msg_flags = 0x8180,
       msg_counts = [0, 2, 0, 0], msg_sections = [0, 12, 0, 0],
       msg_sect = 1, msg_rrnum = 1, msg_ptr = 27 \<rparr> ns_s_an (Suc 0) =
     (0, \<lparr> msg_octets = two_txt_answer, msg_id = 0x1234, msg_flags = 0x8180,
            msg_counts = [0, 2, 0, 0], msg_sections = [0, 12, 0, 0],
            msg_sect = 1, msg_rrnum = 2, msg_ptr = 40 \<rparr>,
      \<lparr> rr_name = [], rr_type = 16, rr_class = 1, rr_ttl = 60, rdlength = 2, rdata = 38 \<rparr>, 0)"
  by (simp add: ref_ns_parserr_def Let_def ns_s_an_def ns_s_max_def ref_setsection_def
        length3 parse3)

lemma lookup_bad_owner_answer:
  "lookup (answering bad_owner_answer) ''example.com'' 1 16 =
     Failed (runtime_error ''Invalid record 0 of DNS answer: Message too long'')"
proof -
  let ?lib = "answering bad_owner_answer"
  let ?h = "snd (ref_ns_initparse bad_owner_answer)"
  have lib: "ns_initparse ?lib = ref_ns_initparse" "ns_parserr ?lib = ref_ns_parserr"
    "strerror ?lib = ref_strerror"
    by (simp_all add: answering_def reference_lib_def)
  have init: "fst (res_ninit ?lib) = 0"
    by (simp add: answering_def reference_lib_def)
  have raw: "snd (Lookup_answer ?lib ''example.com'' 1 16) = Inr bad_owner_answer"
    unfolding answering_def
    by (subst Lookup_answer_reference [where octets = bad_owner_answer])
       (simp_all add: bad_owner_answer_def)
  have parse: "ns_initparse ?lib bad_owner_answer = (0, ?h)"
    by (simp add: lib init2)
  have n: "ns_msg_count ?h ns_s_an = 1"
    by (simp add: init2 ns_msg_count_def ns_s_an_def)
  have bad: "\<not> extracted ?lib ?h 0"
    by (simp add: extracted_def lib parserr2)
  have errno: "errno_at ?lib ?h 0 = EMSGSIZE"
    by (simp add: errno_at_def lib parserr2)
  have "lookup ?lib ''example.com'' 1 16 =
          Failed (runtime_error (''Invalid record '' @ to_string 0 @ '' of DNS answer: '' @
                    strerror ?lib (errno_at ?lib ?h 0)))"
    by (rule lookup_extraction_fails [OF init raw parse n]) (simp_all add: bad)
  then show ?thesis
    by (simp add: errno lib ref_strerror_def to_string.simps digit_char_def)
qed

theorem lookup_all_or_nothing_witness:
  "fst (res_ninit (answering two_txt_answer)) = 0 \<and>
   snd (Lookup_answer (answering two_txt_answer) ''example.com'' 1 16) = Inr two_txt_answer \<and>
   fst (ns_initparse (answering two_txt_answer) two_txt_answer) = 0 \<and>
   ns_msg_count (snd (ns_initparse (answering two_txt_answer) two_txt_answer)) ns_s_an = 2 \<and>
   extracted (answering two_txt_answer)
     (snd (ns_initparse (answering two_txt_answer) two_txt_answer)) 0 \<and>
   extracted (answering two_txt_answer)
     (snd (ns_initparse (answering two_txt_answer) two_txt_answer)) 1 \<and>
   read (answering two_txt_answer)
     (record_at (answering two_txt_answer)
        (snd (ns_initparse (answering two_txt_answer) two_txt_answer)) 0) 16 = Inr ''abc'' \<and>
   read (answering two_txt_answer)
     (record_at (answering two_txt_answer)
        (snd (ns_initparse (answering two_txt_answer) two_txt_answer)) 1) 16 =
     Inl (runtime_error ''Invalid DNS TXT record received'') \<and>
   m_result (fst (Execute (answering two_txt_answer) (DNSWorker_ctor ''example.com'' 1 16))) =
     [''abc''] \<and>
   lookup (answering two_txt_answer) ''example.com'' 1 16 =
     Failed (runtime_error ''Invalid DNS TXT record received'')"
proof -
  let ?lib = "answering two_txt_answer"
  let ?h = "snd (ref_ns_initparse two_txt_answer)"
  let ?e = "runtime_error ''Invalid DNS TXT record received''"
  have lib: "ns_initparse ?lib = ref_ns_initparse" "ns_parserr ?lib = ref_ns_parserr"
    by (simp_all add: answering_def reference_lib_def)
  have init: "fst (res_ninit ?lib) = 0"
    by (simp add: answering_def reference_lib_def)
  have raw: "snd (Lookup_answer ?lib ''example.com'' 1 16) = Inr two_txt_answer"
    unfolding answering_def
    by (subst Lookup_answer_reference [where octets = two_txt_answer])
       (simp_all add: two_txt_answer_def)
  have parse: "ns_initparse ?lib two_txt_answer = (0, ?h)"
    by (simp add: lib init3)
  have rc: "fst (ref_ns_initparse two_txt_answer) = 0"
    by (simp add: init3)
  have n: "ns_msg_count ?h ns_s_an = 2"
    by (simp add: init3 ns_msg_count_def ns_s_an_def)
  have h1: "handle_before ?lib ?h (Suc 0) =
      \<lparr> msg_octets = two_txt_answer, msg_id = 0x1234, msg_flags = 0x8180,
        msg_counts = [0, 2, 0, 0], msg_sections = [0, 12, 0, 0],
        msg_sect = 1, msg_rrnum = 1, msg_ptr = 27 \<rparr>"
    by (simp add: lib parserr3a)
  have ex0: "extracted ?lib ?h 0"
    by (simp add: extracted_def lib parserr3a)
  have ex1: "extracted ?lib ?h (Suc 0)"
    unfolding extracted_def h1 using parserr3b by (simp add: lib)
  have all: "\<forall>j<2. extracted ?lib ?h j"
    using ex0 ex1 by (simp add: numeral_2_eq_2 less_Suc_eq)
  have rec0: "record_at ?lib ?h 0 =
      \<lparr> m_record = \<lparr> rr_name = [], rr_type = 16, rr_class = 1, rr_ttl = 60, rdlength = 4,
                      rdata = 23 \<rparr>,
        m_octets = two_txt_answer, m_pos = 0 \<rparr>"
    by (simp add: record_at_def lib parserr3a) (simp add: init3)
  have rec1: "record_at ?lib ?h (Suc 0) =
      \<lparr> m_record = \<lparr> rr_name = [], rr_type = 16, rr_class = 1, rr_ttl = 60, rdlength = 2,
                      rdata = 38 \<rparr>,
        m_octets = two_txt_answer, m_pos = Suc 0 \<rparr>"
    unfolding record_at_def h1 using parserr3b by (simp add: lib)
  have c: "to_char 0x61 = CHR ''a''" "to_char 0x62 = CHR ''b''" "to_char 0x63 = CHR ''c''"
    by code_simp+
  have dec0: "read ?lib (record_at ?lib ?h 0) 16 = Inr ''abc''"
    unfolding rec0
    by (simp add: read_def QueryType_A_def QueryType_AAAA_def QueryType_SRV_def QueryType_TXT_def
          asTXT_def rawData_def ns_rr_rdata_def ns_rr_rdlen_def deref_def octets_between_def
          two_txt_answer_def c)
  have dec1: "read ?lib (record_at ?lib ?h (Suc 0)) 16 = Inl ?e"
    unfolding rec1
    by (simp add: read_def QueryType_A_def QueryType_AAAA_def QueryType_SRV_def QueryType_TXT_def
          asTXT_def rawData_def ns_rr_rdata_def ns_rr_rdlen_def deref_def two_txt_answer_def)
  have first: "\<forall>j<Suc 0. \<not> isl (read ?lib (record_at ?lib ?h j) 16)"
    using dec0 by simp
  from lookup_all_or_nothing [OF init raw parse n]
  have "\<forall>k<2. \<forall>e. (\<forall>j<2. extracted ?lib ?h j) \<and>
               read ?lib (record_at ?lib ?h k) 16 = Inl e \<and>
               (\<forall>j<k. \<not> isl (read ?lib (record_at ?lib ?h j) 16)) \<longrightarrow>
               lookup ?lib ''example.com'' 1 16 = Failed e"
    by blast
  moreover have "Suc 0 < (2 :: nat)"
    by simp
  ultimately have failed: "lookup ?lib ''example.com'' 1 16 = Failed ?e"
    using all dec1 first by blast
  have records: "Lookup ?lib ''example.com'' 1 16 =
      Inr \<lparr> m_raw_data = two_txt_answer,
             m_records = [record_at ?lib ?h 0, record_at ?lib ?h (Suc 0)],
             m_answer = handle_before ?lib ?h 2 \<rparr>"
    using Lookup_records [OF raw parse n all] by (simp add: numeral_2_eq_2 upt_rec)
  have partial: "m_result (fst (Execute ?lib (DNSWorker_ctor ''example.com'' 1 16))) = [''abc'']"
    using init
    by (simp add: Execute_def DNSController_ctor_def split_def DNSWorker_ctor_def records dec0 dec1)
  have ex1': "extracted ?lib ?h 1" and dec1': "read ?lib (record_at ?lib ?h 1) 16 = Inl ?e"
    using ex1 dec1 by simp_all
  from init raw rc n ex0 ex1' dec0 dec1' partial failed show ?thesis
    unfolding lib by (intro conjI)
qed

text \<open>
  Claim C2 as stated fails twice. In the first response record 0 is a TXT record whose length
  octet exceeds its payload: the record is extracted, its decoding fails, and the error of the
  lookup is \<^verbatim>\<open>Invalid DNS TXT record received\<close>, which does not contain the index. The second
  response declares one answer record and is cut inside it: the message as a whole is
  rejected before any record is extracted, and the error is \<^verbatim>\<open>Invalid DNS answer for "<name>"\<close>,
  which names the query and no index.
\<close>

theorem lookup_errors_without_index:
  "ns_msg_count (snd (ns_initparse (answering bad_txt_answer) bad_txt_answer)) ns_s_an = 1 \<and>
   extracted (answering bad_txt_answer) (snd (ns_initparse (answering bad_txt_answer) bad_txt_answer)) 0 \<and>
   isl (read (answering bad_txt_answer)
          (record_at (answering bad_txt_answer)
             (snd (ns_initparse (answering bad_txt_answer) bad_txt_answer)) 0) 16) \<and>
   lookup (answering bad_txt_answer) ''example.com'' 1 16 =
     Failed (runtime_error ''Invalid DNS TXT record received'') \<and>
   to_string 0 = ''0'' \<and> CHR ''0'' \<notin> set ''Invalid DNS TXT record received'' \<and>
   get16 truncated_answer 6 = 1 \<and>
   lookup (answering truncated_answer) ''example.com'' 1 16 =
     Failed (runtime_error (''Invalid DNS answer for '' @ [dquote] @ ''example.com'' @ [dquote])) \<and>
   CHR ''0'' \<notin> set (''Invalid DNS answer for '' @ [dquote] @ ''example.com'' @ [dquote])"
proof -
  let ?lib = "answering bad_txt_answer"
  let ?h = "snd (ref_ns_initparse bad_txt_answer)"
  have lib: "ns_initparse ?lib = ref_ns_initparse" "ns_parserr ?lib = ref_ns_parserr"
    by (simp_all add: answering_def reference_lib_def)
  have init: "fst (res_ninit ?lib) = 0"
    by (simp add: answering_def reference_lib_def)
  have raw: "snd (Lookup_answer ?lib ''example.com'' 1 16) = Inr bad_txt_answer"
    unfolding answering_def
    by (subst Lookup_answer_reference [where octets = bad_txt_answer])
       (simp_all add: bad_txt_answer_def)
  have parse: "ns_initparse ?lib bad_txt_answer = (0, ?h)"
    by (simp add: lib init1)
  have n: "ns_msg_count ?h ns_s_an = 1"
    by (simp add: init1 ns_msg_count_def ns_s_an_def)
  have ok: "extracted ?lib ?h 0"
    by (simp add: extracted_def lib parserr1)
  have rec: "record_at ?lib ?h 0 =
      \<lparr> m_record = \<lparr> rr_name = [], rr_type = 16, rr_class = 1, rr_ttl = 60, rdlength = 2,
                      rdata = 23 \<rparr>,
        m_octets = bad_txt_answer, m_pos = 0 \<rparr>"
    by (simp add: record_at_def lib parserr1) (simp add: init1)
  have dec: "read ?lib (record_at ?lib ?h 0) 16 =
      Inl (runtime_error ''Invalid DNS TXT record received'')"
    unfolding rec
    by (simp add: read_def QueryType_A_def QueryType_AAAA_def QueryType_SRV_def QueryType_TXT_def
          asTXT_def rawData_def ns_rr_rdata_def ns_rr_rdlen_def deref_def bad_txt_answer_def)
  have failed: "lookup ?lib ''example.com'' 1 16 =
      Failed (runtime_error ''Invalid DNS TXT record received'')"
    by (rule lookup_decoding_fails [OF init raw parse n, where k = 0]) (simp_all add: ok dec)
  have zero: "to_string 0 = ''0''"
    by (simp add: to_string.simps digit_char_def)
  let ?cut = "answering truncated_answer"
  have init': "fst (res_ninit ?cut) = 0"
    by (simp add: answering_def reference_lib_def)
  have raw': "snd (Lookup_answer ?cut ''example.com'' 1 16) = Inr truncated_answer"
    unfolding answering_def
    by (subst Lookup_answer_reference [where octets = truncated_answer])
       (simp_all add: truncated_answer_def)
  have parse': "fst (ns_initparse ?cut truncated_answer) \<noteq> 0"
    by (simp add: answering_def reference_lib_def init4)
  have cut: "lookup ?cut ''example.com'' 1 16 =
      Failed (runtime_error (''Invalid DNS answer for '' @ [dquote] @ ''example.com'' @ [dquote]))"
    by (rule lookup_invalid_answer [OF init' raw' parse'])
  have declared: "get16 truncated_answer 6 = 1"
    by (simp add: get16_def truncated_answer_def)
  have nodigit: "CHR ''0'' \<notin> set ''Invalid DNS TXT record received''"
    "CHR ''0'' \<notin> set (''Invalid DNS answer for '' @ [dquote] @ ''example.com'' @ [dquote])"
    by (simp_all add: dquote_def)
  have isl: "isl (read ?lib (record_at ?lib ?h 0) 16)"
    by (simp add: dec)
  from n ok isl failed zero nodigit(1) declared cut nodigit(2) show ?thesis
    unfolding lib by (intro conjI)
qed

end
